theory Spec2Isabelle
  imports Complex_Main
begin

section \<open>Python values, exceptions and subscripting\<close>

text \<open>
  The Duet object model (\<open>self.duet.om\<close>) is a nested structure decoded from JSON:
  dictionaries with string keys, lists, strings, numbers, booleans and \<open>None\<close>.
  Python floats are modelled as reals (ideal arithmetic, no rounding, no infinities).
  A dictionary is an association list read with \<open>map_of\<close>.
\<close>

datatype json =
    JNull
  | JBool bool
  | JInt int
  | JFloat real
  | JStr string
  | JList "json list"
  | JObj "(string \<times> json) list"

datatype exc =
    KeyError
  | IndexError
  | TypeError
  | ValueError
  | ZeroDivisionError
  | TimeoutError
  | KeyboardInterrupt
  | CancelledError
  | OverflowError
  | ClientResponseError int
  | OtherError

text \<open>\<open>xs[i]\<close> on a Python sequence: a negative index counts from the end, an index
  outside the sequence raises \<open>IndexError\<close>.\<close>

definition seq_getitem :: "'a list \<Rightarrow> int \<Rightarrow> exc + 'a" where
  "seq_getitem xs i =
     (if 0 \<le> i \<and> i < int (length xs) then Inr (xs ! nat i)
      else if i < 0 \<and> 0 \<le> int (length xs) + i then Inr (xs ! nat (int (length xs) + i))
      else Inl IndexError)"

text \<open>An object usable as a sequence index: an int, or a bool (a subclass of int).\<close>

fun as_index :: "json \<Rightarrow> int option" where
  "as_index (JInt i) = Some i"
| "as_index (JBool b) = Some (if b then 1 else 0)"
| "as_index _ = None"

text \<open>\<open>obj[key]\<close>. A dictionary raises \<open>KeyError\<close> for a missing hashable key and
  \<open>TypeError\<close> for an unhashable one (a list or a dictionary); the keys of a decoded JSON
  object are strings, so a key that is not a string is never found. A list or a string
  raises \<open>TypeError\<close> for an index that is not an integer and \<open>IndexError\<close> out of range.
  \<open>None\<close>, numbers and booleans are not subscriptable.\<close>

fun getitem :: "json \<Rightarrow> json \<Rightarrow> exc + json" where
  "getitem (JObj kvs) (JStr k) = (case map_of kvs k of None \<Rightarrow> Inl KeyError | Some v \<Rightarrow> Inr v)"
| "getitem (JObj kvs) (JList ks) = Inl TypeError"
| "getitem (JObj kvs) (JObj ks) = Inl TypeError"
| "getitem (JObj kvs) k = Inl KeyError"
| "getitem (JList xs) k =
     (case as_index k of None \<Rightarrow> Inl TypeError | Some i \<Rightarrow> seq_getitem xs i)"
| "getitem (JStr s) k =
     (case as_index k of None \<Rightarrow> Inl TypeError
      | Some i \<Rightarrow> (case seq_getitem s i of Inl e \<Rightarrow> Inl e | Inr c \<Rightarrow> Inr (JStr [c])))"
| "getitem j k = Inl TypeError"

text \<open>A chain of subscripts \<open>obj[k1][k2]...\<close>, evaluated left to right; the first
  exception ends the evaluation.\<close>

fun getpath :: "json \<Rightarrow> json list \<Rightarrow> exc + json" where
  "getpath j [] = Inr j"
| "getpath j (k # ks) = (case getitem j k of Inl e \<Rightarrow> Inl e | Inr v \<Rightarrow> getpath v ks)"

section \<open>Printer state\<close>

datatype printer_status =
    OPERATIONAL | PRINTING | OFFLINE | PAUSED | PAUSING | CANCELLING | RESUMING | ERROR
  | NOT_READY

record temperature =
  actual :: json
  target :: json

record temperatures =
  bed_temperature :: temperature
  tool_temperatures :: "temperature list"
  ambient_temperature :: json

section \<open>Temperature mapping\<close>

text \<open>
  The loop of \<open>_update_temperatures\<close> over \<open>enumerate(self.printer.tool_temperatures)\<close>.
  \<open>done\<close> holds the tools already updated, \<open>tool_idx = length done\<close>. The heater whose
  \<open>state\<close> is tested is \<open>heaters[1]\<close>, as in the source. A tool's \<open>actual\<close> is stored
  before its target is computed, so it stays stored when the target raises.
\<close>

fun update_tool_temperatures ::
  "json \<Rightarrow> json \<Rightarrow> temperature list \<Rightarrow> temperature list \<Rightarrow> temperature list \<times> exc option"
where
  "update_tool_temperatures om heaters done [] = (done, None)"
| "update_tool_temperatures om heaters done (t # ts) =
     (case getpath om [JStr ''tools'', JInt (int (length done)), JStr ''heaters'', JInt 0] of
        Inl e \<Rightarrow> (done @ t # ts, Some e)
      | Inr heater_idx \<Rightarrow>
     (case getpath heaters [heater_idx, JStr ''current''] of
        Inl e \<Rightarrow> (done @ t # ts, Some e)
      | Inr cur \<Rightarrow>
     (case getpath heaters [JInt 1, JStr ''state''] of
        Inl e \<Rightarrow> (done @ t\<lparr>actual := cur\<rparr> # ts, Some e)
      | Inr st \<Rightarrow>
     (case (if st = JStr ''off'' then Inr (JFloat 0)
            else getpath heaters [heater_idx, JStr ''active'']) of
        Inl e \<Rightarrow> (done @ t\<lparr>actual := cur\<rparr> # ts, Some e)
      | Inr tgt \<Rightarrow>
          update_tool_temperatures om heaters (done @ [t\<lparr>actual := cur, target := tgt\<rparr>]) ts))))"

text \<open>\<open>_update_temperatures\<close>: the bed first (the heater whose \<open>state\<close> is tested is
  \<open>heaters[0]\<close>), then the tools, then the ambient temperature. The result is the state
  reached and the exception raised, if any.\<close>

definition update_temperatures :: "json \<Rightarrow> temperatures \<Rightarrow> temperatures \<times> exc option" where
  "update_temperatures om p =
     (case getpath om [JStr ''heat'', JStr ''heaters''] of
        Inl e \<Rightarrow> (p, Some e)
      | Inr heaters \<Rightarrow>
     (case getpath om [JStr ''heat'', JStr ''bedHeaters'', JInt 0] of
        Inl e \<Rightarrow> (p, Some e)
      | Inr bed_heater_index \<Rightarrow>
     (case getpath heaters [bed_heater_index, JStr ''current''] of
        Inl e \<Rightarrow> (p, Some e)
      | Inr cur \<Rightarrow>
     (case getpath heaters [JInt 0, JStr ''state''] of
        Inl e \<Rightarrow> (p\<lparr>bed_temperature := (bed_temperature p)\<lparr>actual := cur\<rparr>\<rparr>, Some e)
      | Inr st \<Rightarrow>
     (case (if st = JStr ''off'' then Inr (JFloat 0)
            else getpath heaters [bed_heater_index, JStr ''active'']) of
        Inl e \<Rightarrow> (p\<lparr>bed_temperature := (bed_temperature p)\<lparr>actual := cur\<rparr>\<rparr>, Some e)
      | Inr tgt \<Rightarrow>
     (case update_tool_temperatures om heaters [] (tool_temperatures p) of
        (tools, Some e) \<Rightarrow>
          (p\<lparr>bed_temperature := (bed_temperature p)\<lparr>actual := cur, target := tgt\<rparr>,
             tool_temperatures := tools\<rparr>, Some e)
      | (tools, None) \<Rightarrow>
          (p\<lparr>bed_temperature := (bed_temperature p)\<lparr>actual := cur, target := tgt\<rparr>,
             tool_temperatures := tools, ambient_temperature := JInt 20\<rparr>, None)))))))"

text \<open>The temperature step of \<open>_duet_on_objectmodel\<close>: \<open>_update_temperatures\<close> inside
  \<open>try ... except KeyError\<close>. The handler writes the bed's and the first tool's
  \<open>actual\<close>; every other exception leaves the handler.\<close>

definition on_objectmodel_temperatures :: "json \<Rightarrow> temperatures \<Rightarrow> temperatures \<times> exc option" where
  "on_objectmodel_temperatures om p =
     (case update_temperatures om p of
        (p', Some KeyError) \<Rightarrow>
          (case tool_temperatures p' of
             [] \<Rightarrow> (p'\<lparr>bed_temperature := (bed_temperature p')\<lparr>actual := JFloat 0\<rparr>\<rparr>,
                    Some IndexError)
           | t # ts \<Rightarrow>
               (p'\<lparr>bed_temperature := (bed_temperature p')\<lparr>actual := JFloat 0\<rparr>,
                   tool_temperatures := t\<lparr>actual := JFloat 0\<rparr> # ts\<rparr>, None))
      | r \<Rightarrow> r)"

section \<open>Status mapping\<close>

definition duet_state_simplyprint_status_mapping :: "(string \<times> printer_status) list" where
  "duet_state_simplyprint_status_mapping =
     [(''disconnected'', OFFLINE), (''starting'', NOT_READY), (''updating'', NOT_READY),
      (''off'', OFFLINE), (''halted'', ERROR), (''pausing'', PAUSING), (''paused'', PAUSED),
      (''resuming'', RESUMING), (''cancelling'', CANCELLING), (''processing'', PRINTING),
      (''simulating'', OPERATIONAL), (''busy'', OPERATIONAL), (''changingTool'', OPERATIONAL),
      (''idle'', OPERATIONAL)]"

definition duet_state_simplyprint_status_while_printing_mapping ::
  "(string \<times> printer_status) list"
where
  "duet_state_simplyprint_status_while_printing_mapping =
     [(''disconnected'', OFFLINE), (''starting'', NOT_READY), (''updating'', NOT_READY),
      (''off'', OFFLINE), (''halted'', ERROR), (''pausing'', PAUSING), (''paused'', PAUSED),
      (''resuming'', RESUMING), (''cancelling'', CANCELLING), (''processing'', PRINTING),
      (''simulating'', NOT_READY), (''busy'', PRINTING), (''changingTool'', PRINTING),
      (''idle'', OPERATIONAL)]"

text \<open>\<open>except (KeyError, TypeError)\<close> with a replacement value: any other exception
  goes on.\<close>

definition except_key_type :: "exc + 'a \<Rightarrow> 'a \<Rightarrow> exc + 'a" where
  "except_key_type r d =
     (case r of
        Inl e \<Rightarrow> if e = KeyError \<or> e = TypeError then Inr d else Inl e
      | Inr v \<Rightarrow> Inr v)"

fun str_startswith :: "string \<Rightarrow> string \<Rightarrow> bool" where
  "str_startswith s [] = True"
| "str_startswith [] (c # cs) = False"
| "str_startswith (x # xs) (c # cs) = (x = c \<and> str_startswith xs cs)"

fun str_contains :: "string \<Rightarrow> string \<Rightarrow> bool" where
  "str_contains [] k = (k = [])"
| "str_contains (x # xs) k = (str_startswith (x # xs) k \<or> str_contains xs k)"

text \<open>\<open>k in obj\<close> for a string \<open>k\<close>: a key of a dictionary, an element of a list, a
  substring of a string; anything else is not a container.\<close>

fun py_in :: "string \<Rightarrow> json \<Rightarrow> exc + bool" where
  "py_in k (JObj kvs) = Inr (map_of kvs k \<noteq> None)"
| "py_in k (JList xs) = Inr (JStr k \<in> set xs)"
| "py_in k (JStr s) = Inr (str_contains s k)"
| "py_in k j = Inl TypeError"

text \<open>\<open>_is_printing\<close>, from the current \<open>self.printer.status\<close> and the object model.\<close>

definition is_printing :: "json \<Rightarrow> printer_status \<Rightarrow> exc + bool" where
  "is_printing om st =
     (if st \<in> {PRINTING, PAUSED, PAUSING, RESUMING} then Inr True
      else except_key_type
        (case getpath om [JStr ''job'', JStr ''file''] of
           Inl e \<Rightarrow> Inl e
         | Inr job_status \<Rightarrow>
             (case py_in ''filename'' job_status of
                Inl e \<Rightarrow> Inl e
              | Inr False \<Rightarrow> Inr False
              | Inr True \<Rightarrow>
                  (case getitem job_status (JStr ''filename'') of
                     Inl e \<Rightarrow> Inl e
                   | Inr v \<Rightarrow> Inr (v \<noteq> JNull))))
        False)"

text \<open>\<open>status_mapping.get(printer_state, PrinterStatus.OFFLINE)\<close>: an unhashable key
  raises, a key that is not a string is never found.\<close>

fun status_get :: "(string \<times> printer_status) list \<Rightarrow> json \<Rightarrow> printer_status \<Rightarrow> exc + printer_status"
where
  "status_get m (JStr s) d = Inr (case map_of m s of None \<Rightarrow> d | Some v \<Rightarrow> v)"
| "status_get m (JList ks) d = Inl TypeError"
| "status_get m (JObj ks) d = Inl TypeError"
| "status_get m k d = Inr d"

text \<open>\<open>_map_duet_state_to_printer_status\<close>: the new \<open>self.printer.status\<close> (the old one
  when an exception leaves the method) and that exception.\<close>

definition map_duet_state_to_printer_status ::
  "json \<Rightarrow> printer_status \<Rightarrow> printer_status \<times> exc option"
where
  "map_duet_state_to_printer_status om st =
     (case except_key_type (getpath om [JStr ''state'', JStr ''status'']) (JStr ''disconnected'') of
        Inl e \<Rightarrow> (st, Some e)
      | Inr printer_state \<Rightarrow>
     (case is_printing om st of
        Inl e \<Rightarrow> (st, Some e)
      | Inr printing \<Rightarrow>
     (case status_get
             (if printing then duet_state_simplyprint_status_while_printing_mapping
              else duet_state_simplyprint_status_mapping)
             printer_state OFFLINE of
        Inl e \<Rightarrow> (st, Some e)
      | Inr new_status \<Rightarrow> (new_status, None))))"

section \<open>Job progress\<close>

text \<open>
  A Python float is a finite value, an infinity or NaN. A finite value is modelled as a
  real: the rounding to the nearest representable number is not modelled, the range is.
  A result at or beyond \<open>float_limit\<close> (the largest float plus half a unit in the last
  place) is an infinity, and converting an int of that magnitude raises
  \<open>OverflowError\<close>.
\<close>

datatype pyfloat = Finite real | PosInf | NegInf | NaN

definition float_limit :: real where
  "float_limit = 2 ^ 1024 - 2 ^ 970"

definition float_result :: "real \<Rightarrow> pyfloat" where
  "float_result x =
     (if float_limit \<le> x then PosInf else if x \<le> - float_limit then NegInf else Finite x)"

definition int_to_float :: "int \<Rightarrow> exc + pyfloat" where
  "int_to_float i =
     (if float_limit \<le> \<bar>of_int i\<bar> then Inl OverflowError else Inr (Finite (of_int i)))"

text \<open>\<open>x + y\<close>, \<open>x * 100.0\<close>, \<open>x / y\<close> and \<open>min(x, 100.0)\<close> on floats. Addition and
  multiplication never raise; division raises for a divisor equal to zero, whatever the
  dividend; \<open>min(x, 100.0)\<close> is \<open>100.0\<close> when \<open>100.0 < x\<close> and \<open>x\<close> otherwise, so NaN
  stays NaN.\<close>

fun float_add :: "pyfloat \<Rightarrow> pyfloat \<Rightarrow> pyfloat" where
  "float_add NaN y = NaN"
| "float_add x NaN = NaN"
| "float_add (Finite a) (Finite b) = float_result (a + b)"
| "float_add PosInf NegInf = NaN"
| "float_add NegInf PosInf = NaN"
| "float_add PosInf y = PosInf"
| "float_add NegInf y = NegInf"
| "float_add x PosInf = PosInf"
| "float_add x NegInf = NegInf"

fun float_times_100 :: "pyfloat \<Rightarrow> pyfloat" where
  "float_times_100 (Finite a) = float_result (a * 100)"
| "float_times_100 x = x"

fun float_div :: "pyfloat \<Rightarrow> pyfloat \<Rightarrow> exc + pyfloat" where
  "float_div x (Finite b) =
     (if b = 0 then Inl ZeroDivisionError
      else (case x of
              Finite a \<Rightarrow> Inr (float_result (a / b))
            | PosInf \<Rightarrow> Inr (if 0 < b then PosInf else NegInf)
            | NegInf \<Rightarrow> Inr (if 0 < b then NegInf else PosInf)
            | NaN \<Rightarrow> Inr NaN))"
| "float_div x NaN = Inr NaN"
| "float_div (Finite a) y = Inr (Finite 0)"
| "float_div x y = Inr NaN"

fun float_min_100 :: "pyfloat \<Rightarrow> pyfloat" where
  "float_min_100 (Finite a) = (if 100 < a then Finite 100 else Finite a)"
| "float_min_100 PosInf = Finite 100"
| "float_min_100 x = x"

text \<open>A Python number is an int of any size or a float; a bool counts as the int 0 or 1.
  A JSON number written with a fraction or an exponent is decoded to the float of its
  value. Adding an int and a float converts the int first.\<close>

datatype pynum = PyInt int | PyFloat pyfloat

fun as_number :: "json \<Rightarrow> pynum option" where
  "as_number (JInt i) = Some (PyInt i)"
| "as_number (JFloat r) = Some (PyFloat (float_result r))"
| "as_number (JBool b) = Some (PyInt (if b then 1 else 0))"
| "as_number j = None"

fun num_to_float :: "pynum \<Rightarrow> exc + pyfloat" where
  "num_to_float (PyInt i) = int_to_float i"
| "num_to_float (PyFloat x) = Inr x"

fun num_add :: "pynum \<Rightarrow> pynum \<Rightarrow> exc + pynum" where
  "num_add (PyInt a) (PyInt b) = Inr (PyInt (a + b))"
| "num_add (PyInt a) (PyFloat y) =
     (case int_to_float a of Inl e \<Rightarrow> Inl e | Inr x \<Rightarrow> Inr (PyFloat (float_add x y)))"
| "num_add (PyFloat x) (PyInt b) =
     (case int_to_float b of Inl e \<Rightarrow> Inl e | Inr y \<Rightarrow> Inr (PyFloat (float_add x y)))"
| "num_add (PyFloat x) (PyFloat y) = Inr (PyFloat (float_add x y))"

text \<open>\<open>sum(iterable)\<close>: starts from the int 0 and adds the items from left to right; an
  item that is not a number raises \<open>TypeError\<close>. Iterating a dictionary yields its keys,
  iterating a string its characters; anything else but a list is not iterable.\<close>

fun sum_items :: "json list \<Rightarrow> pynum \<Rightarrow> exc + pynum" where
  "sum_items [] acc = Inr acc"
| "sum_items (x # xs) acc =
     (case as_number x of
        None \<Rightarrow> Inl TypeError
      | Some v \<Rightarrow> (case num_add acc v of Inl e \<Rightarrow> Inl e | Inr acc' \<Rightarrow> sum_items xs acc'))"

fun py_sum :: "json \<Rightarrow> exc + pynum" where
  "py_sum (JList xs) = sum_items xs (PyInt 0)"
| "py_sum (JObj kvs) = sum_items (map (\<lambda>kv. JStr (fst kv)) kvs) (PyInt 0)"
| "py_sum (JStr s) = sum_items (map (\<lambda>c. JStr [c]) s) (PyInt 0)"
| "py_sum j = Inl TypeError"

text \<open>\<open>float(x)\<close>. The parser of numeric strings belongs to the language, not to the
  repository: it is the parameter \<open>parse\<close> (\<open>None\<close> for a string that is no number,
  where \<open>float\<close> raises \<open>ValueError\<close>; the strings \<open>inf\<close> and \<open>nan\<close> are numbers).\<close>

fun py_float :: "(string \<Rightarrow> pyfloat option) \<Rightarrow> json \<Rightarrow> exc + pyfloat" where
  "py_float parse (JInt i) = int_to_float i"
| "py_float parse (JFloat r) = Inr (float_result r)"
| "py_float parse (JBool b) = Inr (Finite (if b then 1 else 0))"
| "py_float parse (JStr s) = (case parse s of None \<Rightarrow> Inl ValueError | Some x \<Rightarrow> Inr x)"
| "py_float parse j = Inl TypeError"

text \<open>The integer nearest to a real, a tie going to the even one: what \<open>round\<close> gives for
  a finite float.\<close>

definition round_half_even :: "real \<Rightarrow> int" where
  "round_half_even x =
     (if x - of_int \<lfloor>x\<rfloor> < 1 / 2 then \<lfloor>x\<rfloor>
      else if 1 / 2 < x - of_int \<lfloor>x\<rfloor> then \<lfloor>x\<rfloor> + 1
      else if even \<lfloor>x\<rfloor> then \<lfloor>x\<rfloor> else \<lfloor>x\<rfloor> + 1)"

text \<open>\<open>round(x, None)\<close>: an int; it raises \<open>OverflowError\<close> for an infinity and
  \<open>ValueError\<close> for NaN.\<close>

fun py_round :: "pyfloat \<Rightarrow> exc + int" where
  "py_round (Finite a) = Inr (round_half_even a)"
| "py_round NaN = Inl ValueError"
| "py_round x = Inl OverflowError"

record job_info =
  progress :: pyfloat
  filament :: int

text \<open>The \<open>except (TypeError, KeyError, ZeroDivisionError)\<close> clause of
  \<open>_update_job_progress\<close>: any other exception goes on.\<close>

definition job_progress_except :: "exc \<Rightarrow> job_info \<Rightarrow> job_info \<times> exc option" where
  "job_progress_except e ji =
     (if e = TypeError \<or> e = KeyError \<or> e = ZeroDivisionError
      then (ji\<lparr>progress := Finite 0\<rparr>, None)
      else (ji, Some e))"

text \<open>\<open>_update_job_progress\<close>. The division converts an int total to a float first. The
  progress is assigned before \<open>round\<close> is called, so it stays assigned when \<open>round\<close>
  raises.\<close>

definition update_job_progress ::
  "(string \<Rightarrow> pyfloat option) \<Rightarrow> json \<Rightarrow> job_info \<Rightarrow> job_info \<times> exc option"
where
  "update_job_progress parse job_status ji =
     (case getpath job_status [JStr ''file'', JStr ''filament''] of
        Inl e \<Rightarrow> job_progress_except e ji
      | Inr fil \<Rightarrow>
     (case py_sum fil of
        Inl e \<Rightarrow> job_progress_except e ji
      | Inr total_filament_required \<Rightarrow>
     (case getitem job_status (JStr ''rawExtrusion'') of
        Inl e \<Rightarrow> job_progress_except e ji
      | Inr raw \<Rightarrow>
     (case py_float parse raw of
        Inl e \<Rightarrow> job_progress_except e ji
      | Inr current_filament \<Rightarrow>
     (case num_to_float total_filament_required of
        Inl e \<Rightarrow> job_progress_except e ji
      | Inr divisor \<Rightarrow>
     (case float_div (float_times_100 current_filament) divisor of
        Inl e \<Rightarrow> job_progress_except e ji
      | Inr ratio \<Rightarrow>
     (case py_round current_filament of
        Inl e \<Rightarrow> job_progress_except e (ji\<lparr>progress := float_min_100 ratio\<rparr>)
      | Inr rounded \<Rightarrow>
          (ji\<lparr>progress := float_min_100 ratio, filament := rounded\<rparr>, None))))))))"

section \<open>Device identity on connect\<close>

datatype event = ClientConfigChangedEvent










section \<open>Command filter\<close>



text \<open>The outcome of the package upgrade run by \<open>_perform_self_upgrade\<close>: it returns,
  it raises \<open>CalledProcessError\<close> (logged and swallowed), or it raises something else.
  The method never returns: it ends in \<open>raise KeyboardInterrupt()\<close>.\<close>

datatype pip_outcome = PipDone | PipCalledProcessError | PipOtherError






section \<open>Webcam frame buffer\<close>

text \<open>
  \<open>self._webcam_frame\<close> is an \<open>asyncio.Queue(maxsize=3)\<close>, a first-in first-out queue:
  the list holds the frames, oldest first. \<open>get\<close> on an empty queue and \<open>put\<close> on a full
  one make the caller wait; that is the result \<open>None\<close>.
\<close>

definition queue_full :: "nat \<Rightarrow> 'a list \<Rightarrow> bool" where
  "queue_full maxsize q = (if maxsize = 0 then False else maxsize \<le> length q)"

definition queue_get :: "'a list \<Rightarrow> ('a \<times> 'a list) option" where
  "queue_get q = (case q of [] \<Rightarrow> None | x # xs \<Rightarrow> Some (x, xs))"

definition queue_put :: "nat \<Rightarrow> 'a list \<Rightarrow> 'a \<Rightarrow> 'a list option" where
  "queue_put maxsize q x = (if queue_full maxsize q then None else Some (q @ [x]))"

definition webcam_frame_maxsize :: nat where
  "webcam_frame_maxsize = 3"

text \<open>The three lines shared by \<open>_handle_multipart_content\<close> and \<open>_handle_image_content\<close>:
  \<open>if full(): get()\<close>, then \<open>put(content)\<close>.\<close>

definition store_frame :: "'a list \<Rightarrow> 'a \<Rightarrow> 'a list option" where
  "store_frame q content =
     (if queue_full webcam_frame_maxsize q
      then (case queue_get q of
              None \<Rightarrow> None
            | Some (oldest, q') \<Rightarrow> queue_put webcam_frame_maxsize q' content)
      else queue_put webcam_frame_maxsize q content)"

text \<open>A receive task storing frames one after the other, and a run in which the consumer
  (\<open>_fetch_webcam_image\<close>) takes frames in between; a consumer that finds the queue empty
  waits and takes nothing.\<close>

fun store_frames :: "'a list \<Rightarrow> 'a list \<Rightarrow> 'a list option" where
  "store_frames q [] = Some q"
| "store_frames q (x # xs) =
     (case store_frame q x of None \<Rightarrow> None | Some q' \<Rightarrow> store_frames q' xs)"

datatype 'a frame_op = Store 'a | Fetch

fun run_frame_ops :: "'a list \<Rightarrow> 'a frame_op list \<Rightarrow> 'a list option" where
  "run_frame_ops q [] = Some q"
| "run_frame_ops q (Store x # ops) =
     (case store_frame q x of None \<Rightarrow> None | Some q' \<Rightarrow> run_frame_ops q' ops)"
| "run_frame_ops q (Fetch # ops) =
     (case queue_get q of None \<Rightarrow> run_frame_ops q ops | Some (x, q') \<Rightarrow> run_frame_ops q' ops)"

section \<open>Webcam distribution task\<close>

text \<open>
  Tasks run on one event loop and give up control only at an \<open>await\<close> that waits, so
  each function below is one uninterrupted stretch of a coroutine. A distribution task
  is named by a number; \<open>distribution_tasks\<close> lists the tasks created by
  \<open>_webcam_distribution_task()\<close> that have not ended, \<open>tasks_created\<close> counts those ever
  created. Clock readings are the parameters \<open>now\<close>.
\<close>

record snapshot_request =
  snapshot_id :: "string option"
  endpoint :: "string option"

record webcam =
  webcam_timeout :: real
  webcam_distribution_task_handle :: "nat option"
  requested_webcam_snapshots :: "snapshot_request list"
  is_stopped :: bool
  distribution_tasks :: "nat list"
  tasks_created :: nat

definition initialize_webcam :: webcam where
  "initialize_webcam =
     \<lparr>webcam_timeout = 0, webcam_distribution_task_handle = None,
      requested_webcam_snapshots = [], is_stopped = False, distribution_tasks = [],
      tasks_created = 0\<rparr>"

text \<open>\<open>on_webcam_snapshot\<close>. Calling the decorated \<open>_webcam_distribution_task\<close> creates
  the task and returns its handle without waiting.\<close>

definition on_webcam_snapshot ::
  "string option \<Rightarrow> real \<Rightarrow> snapshot_request \<Rightarrow> webcam \<Rightarrow> webcam"
where
  "on_webcam_snapshot webcam_uri now request w =
     (if webcam_distribution_task_handle w = None \<and> webcam_uri \<noteq> None
      then w\<lparr>webcam_timeout := now + 10,
             webcam_distribution_task_handle := Some (tasks_created w),
             distribution_tasks := distribution_tasks w @ [tasks_created w],
             tasks_created := Suc (tasks_created w),
             requested_webcam_snapshots := requested_webcam_snapshots w @ [request]\<rparr>
      else w\<lparr>webcam_timeout := now + 10,
             requested_webcam_snapshots := requested_webcam_snapshots w @ [request]\<rparr>)"

text \<open>The \<open>while\<close> test of \<open>_webcam_distribution_task\<close>, made by the task \<open>tid\<close>: when it
  fails the task resets the handle and ends.\<close>

definition distribution_loop_test :: "nat \<Rightarrow> real \<Rightarrow> webcam \<Rightarrow> webcam" where
  "distribution_loop_test tid now w =
     (if \<not> is_stopped w \<and> now < webcam_timeout w then w
      else w\<lparr>webcam_distribution_task_handle := None,
             distribution_tasks := removeAll tid (distribution_tasks w)\<rparr>)"

text \<open>One pass through the loop body: a request with an id is served at once, one
  without an id is served when the rate limiter is ready and put back otherwise. An
  exception of the body is caught inside the loop.\<close>

definition distribution_loop_body :: "bool \<Rightarrow> webcam \<Rightarrow> webcam" where
  "distribution_loop_body ready w =
     (case requested_webcam_snapshots w of
        [] \<Rightarrow> w
      | r # rs \<Rightarrow>
          if snapshot_id r \<noteq> None then w\<lparr>requested_webcam_snapshots := rs\<rparr>
          else if ready then w\<lparr>requested_webcam_snapshots := rs\<rparr>
          else w\<lparr>requested_webcam_snapshots := rs @ [r]\<rparr>)"

text \<open>What can happen to the client: a snapshot demand, a step of a living distribution
  task, the loss of the connection (\<open>on_remove_connection\<close> cancels every background
  task; a cancelled distribution task ends at its \<open>await\<close> and never reaches the line
  that resets the handle), and a new connection.\<close>

datatype webcam_event =
    SnapshotDemand real snapshot_request
  | LoopTest nat real
  | LoopBody nat bool
  | RemoveConnection
  | Connected

fun webcam_step :: "string option \<Rightarrow> webcam \<Rightarrow> webcam_event \<Rightarrow> webcam" where
  "webcam_step uri w (SnapshotDemand now r) = on_webcam_snapshot uri now r w"
| "webcam_step uri w (LoopTest tid now) =
     (if tid \<in> set (distribution_tasks w) then distribution_loop_test tid now w else w)"
| "webcam_step uri w (LoopBody tid ready) =
     (if tid \<in> set (distribution_tasks w) then distribution_loop_body ready w else w)"
| "webcam_step uri w RemoveConnection = w\<lparr>is_stopped := True, distribution_tasks := []\<rparr>"
| "webcam_step uri w Connected = w\<lparr>is_stopped := False\<rparr>"

definition webcam_run :: "string option \<Rightarrow> webcam_event list \<Rightarrow> webcam" where
  "webcam_run uri evs = foldl (webcam_step uri) initialize_webcam evs"

section \<open>File transfer\<close>

datatype file_progress_state = FP_DOWNLOADING | FP_ERROR | FP_READY

text \<open>What the pipeline does, in order: the writes to \<open>file_progress.state\<close> and
  \<open>file_progress.percent\<close>, the calls of \<open>rr_upload_stream\<close> and of \<open>reconnect\<close>, and the
  hand-over to \<open>on_start_print\<close>.\<close>

datatype transfer_event =
    SetState file_progress_state
  | SetPercent real
  | UploadStream
  | Reconnect
  | StartPrint

record file_progress =
  fp_state :: file_progress_state
  fp_percent :: real
  fp_trace :: "transfer_event list"

definition set_state :: "file_progress_state \<Rightarrow> file_progress \<Rightarrow> file_progress" where
  "set_state st t = t\<lparr>fp_state := st, fp_trace := fp_trace t @ [SetState st]\<rparr>"

definition set_percent :: "real \<Rightarrow> file_progress \<Rightarrow> file_progress" where
  "set_percent x t = t\<lparr>fp_percent := x, fp_trace := fp_trace t @ [SetPercent x]\<rparr>"

definition log_event :: "transfer_event \<Rightarrow> file_progress \<Rightarrow> file_progress" where
  "log_event ev t = t\<lparr>fp_trace := fp_trace t @ [ev]\<rparr>"

fun percents :: "transfer_event list \<Rightarrow> real list" where
  "percents [] = []"
| "percents (SetPercent x # evs) = x # percents evs"
| "percents (ev # evs) = percents evs"

text \<open>The \<open>clamp_progress\<close> lambda given to the downloader, and \<open>_upload_file_progress\<close>
  (\<open>round(x, 0)\<close> rounds a tie to the even integer).\<close>

definition clamp_progress :: "real \<Rightarrow> real" where
  "clamp_progress x = max 0 (min 50 (x / 2))"

definition upload_percent :: "real \<Rightarrow> real" where
  "upload_percent reported =
     min (of_int (round_half_even (50 + max 0 (min 50 (reported / 2))))) 90"

definition upload_file_progress :: "real \<Rightarrow> file_progress \<Rightarrow> file_progress" where
  "upload_file_progress reported t = set_percent (upload_percent reported) t"

text \<open>The progress value of a readiness poll, \<open>min(99.9, 90.0 + timeleft)\<close> with
  \<open>timeleft = 10 - (timeout - time.time()) * 0.025\<close>, from the clock reading \<open>now\<close>.\<close>

definition readiness_percent :: "real \<Rightarrow> real" where
  "readiness_percent now = min (999 / 10) (90 + (10 - (400 - now) * (25 / 1000)))"

text \<open>
  The collaborators. The downloader of the client library reports raw progress values,
  which it passes through \<open>clamp_progress\<close> and writes to \<open>file_progress.percent\<close>, and may
  raise. An upload attempt calls the progress callback with some values and then returns
  the \<open>err\<close> field of the device's response or raises; \<open>up_reconnect\<close> is the exception of
  the reconnect that follows the attempt, when one is made. A readiness poll reads the
  clock (seconds since \<open>_auto_start_file\<close> began, so the deadline is 400), calls
  \<open>rr_fileinfo\<close>, and reads the clock again for the progress value.
\<close>

record download =
  dl_progress :: "real list"
  dl_raises :: "exc option"

datatype upload_outcome = UploadReturns int | UploadRaises exc

record upload_attempt =
  up_progress :: "real list"
  up_outcome :: upload_outcome
  up_reconnect :: "exc option"

datatype poll_outcome = PollReturns int | PollTransient | PollRaises exc

record poll =
  poll_time :: real
  poll_result :: poll_outcome
  poll_time_after :: real

record file_demand =
  fd_download :: download
  fd_uploads :: "nat \<Rightarrow> upload_attempt"
  fd_auto_start :: bool
  fd_polls :: "poll list"

text \<open>The upload loop: \<open>retries = 3; while retries > 0: try ... finally: retries -= 1\<close>.
  \<open>k\<close> counts the attempts already made. The loop ends by exhaustion of \<open>retries\<close>, by
  \<open>break\<close>, by \<open>return\<close> or by an exception.\<close>

datatype loop_exit = LoopExhausted | LoopBreak | LoopReturn | LoopRaise exc

fun upload_loop ::
  "(nat \<Rightarrow> upload_attempt) \<Rightarrow> nat \<Rightarrow> nat \<Rightarrow> file_progress \<Rightarrow> file_progress \<times> loop_exit"
where
  "upload_loop dev 0 k t = (t, LoopExhausted)"
| "upload_loop dev (Suc retries) k t =
     (case up_outcome (dev k) of
        UploadReturns err \<Rightarrow>
          if err = 0
          then (foldl (\<lambda>t p. upload_file_progress p t) (log_event UploadStream t)
                  (up_progress (dev k)), LoopBreak)
          else (set_state FP_ERROR
                  (foldl (\<lambda>t p. upload_file_progress p t) (log_event UploadStream t)
                     (up_progress (dev k))), LoopReturn)
      | UploadRaises e \<Rightarrow>
          if e = ClientResponseError 401 \<or> e = ClientResponseError 500
          then (case up_reconnect (dev k) of
                  Some e' \<Rightarrow>
                    (log_event Reconnect
                       (foldl (\<lambda>t p. upload_file_progress p t) (log_event UploadStream t)
                          (up_progress (dev k))), LoopRaise e')
                | None \<Rightarrow>
                    upload_loop dev retries (Suc k)
                      (log_event Reconnect
                         (foldl (\<lambda>t p. upload_file_progress p t) (log_event UploadStream t)
                            (up_progress (dev k)))))
          else (foldl (\<lambda>t p. upload_file_progress p t) (log_event UploadStream t)
                  (up_progress (dev k)), LoopRaise e))"

text \<open>The number of calls of \<open>rr_upload_stream\<close> the loop makes: one more after each
  retryable failure whose reconnect returns, while \<open>retries\<close> lasts.\<close>

fun upload_attempts :: "(nat \<Rightarrow> upload_attempt) \<Rightarrow> nat \<Rightarrow> nat \<Rightarrow> nat" where
  "upload_attempts dev 0 k = 0"
| "upload_attempts dev (Suc retries) k =
     (case up_outcome (dev k) of
        UploadReturns err \<Rightarrow> 1
      | UploadRaises e \<Rightarrow>
          if (e = ClientResponseError 401 \<or> e = ClientResponseError 500)
             \<and> up_reconnect (dev k) = None
          then Suc (upload_attempts dev retries (Suc k))
          else 1)"

text \<open>\<open>_auto_start_file\<close>: the polling loop with its \<open>else\<close> clause. The list holds the
  polls the clock allows; after the last one the deadline has passed.\<close>

fun auto_start_file :: "poll list \<Rightarrow> file_progress \<Rightarrow> file_progress \<times> exc option" where
  "auto_start_file [] t = (t, Some TimeoutError)"
| "auto_start_file (p # ps) t =
     (if poll_time p < 400
      then (case poll_result p of
              PollRaises e \<Rightarrow> (t, Some e)
            | PollTransient \<Rightarrow>
                auto_start_file ps (set_percent (readiness_percent (poll_time_after p)) t)
            | PollReturns err \<Rightarrow>
                if err = 0 then (log_event StartPrint t, None)
                else auto_start_file ps
                       (set_percent (readiness_percent (poll_time_after p)) t))
      else (t, Some TimeoutError))"

definition finish_transfer :: "file_progress \<Rightarrow> file_progress" where
  "finish_transfer t = set_state FP_READY (set_percent 100 t)"

text \<open>The first part of \<open>_download_file_from_sp_and_upload_to_duet\<close>: the state and the
  percent are set, then the download runs. The heartbeat task started in between re-sends
  the unchanged values and writes nothing.\<close>

definition download_phase :: "file_demand \<Rightarrow> file_progress \<Rightarrow> file_progress" where
  "download_phase event t =
     foldl (\<lambda>t x. set_percent (clamp_progress x) t)
       (set_percent 0 (set_state FP_DOWNLOADING t)) (dl_progress (fd_download event))"

text \<open>The body of \<open>_download_file_from_sp_and_upload_to_duet\<close>. After the upload loop the
  code goes on in the same way whether the loop ended by \<open>break\<close> or by exhaustion.\<close>

definition download_file_from_sp_and_upload_to_duet ::
  "file_demand \<Rightarrow> file_progress \<Rightarrow> file_progress \<times> exc option"
where
  "download_file_from_sp_and_upload_to_duet event t =
     (case dl_raises (fd_download event) of
        Some e \<Rightarrow> (download_phase event t, Some e)
      | None \<Rightarrow>
          (case upload_loop (fd_uploads event) 3 0 (download_phase event t) of
             (t', LoopReturn) \<Rightarrow> (t', None)
           | (t', LoopRaise e) \<Rightarrow> (t', Some e)
           | (t', ex) \<Rightarrow>
               if fd_auto_start event
               then (case auto_start_file (fd_polls event) t' of
                       (t'', Some e) \<Rightarrow> (t'', Some e)
                     | (t'', None) \<Rightarrow> (finish_transfer t'', None))
               else (finish_transfer t', None)))"

text \<open>The decorator \<open>async_supress\<close>: a cancellation goes on (after closing the device
  connection), every other \<open>Exception\<close> is logged and swallowed; \<open>KeyboardInterrupt\<close> is
  not an \<open>Exception\<close>.\<close>

definition async_supress :: "file_progress \<times> exc option \<Rightarrow> file_progress \<times> exc option" where
  "async_supress r =
     (case r of
        (t, None) \<Rightarrow> (t, None)
      | (t, Some e) \<Rightarrow>
          if e = CancelledError \<or> e = KeyboardInterrupt then (t, Some e) else (t, None))"

section \<open>Example inputs\<close>

text \<open>A printer whose bed uses heater 1 (switched off) and whose only tool uses heater 0
  (active); a machine with no heater at all; a printer state with one tool.\<close>

definition heaters_swapped :: json where
  "heaters_swapped =
     JObj [(''heat'', JObj [(''heaters'', JList
              [JObj [(''state'', JStr ''active''), (''current'', JFloat 210),
                     (''active'', JFloat 210)],
               JObj [(''state'', JStr ''off''), (''current'', JFloat 25),
                     (''active'', JFloat 60)]]),
            (''bedHeaters'', JList [JInt 1])]),
           (''tools'', JList [JObj [(''heaters'', JList [JInt 0])]])]"

definition no_heaters :: json where
  "no_heaters =
     JObj [(''heat'', JObj [(''heaters'', JList []), (''bedHeaters'', JList [JInt 0])]),
           (''tools'', JList [])]"

definition one_tool :: temperatures where
  "one_tool =
     \<lparr>bed_temperature = \<lparr>actual = JNull, target = JNull\<rparr>,
      tool_temperatures = [\<lparr>actual = JNull, target = JNull\<rparr>],
      ambient_temperature = JNull\<rparr>"

text \<open>A busy machine that reports a job file with a \<open>filename\<close>.\<close>

definition busy_with_job :: json where
  "busy_with_job =
     JObj [(''state'', JObj [(''status'', JStr ''busy'')]),
           (''job'', JObj [(''file'', JObj [(''filename'', JStr ''part.gcode'')])])]"



definition fresh_job_info :: job_info where
  "fresh_job_info = \<lparr>progress = Finite 0, filament = 0\<rparr>"









text \<open>A live-stream snapshot request.\<close>

definition live_request :: snapshot_request where
  "live_request = \<lparr>snapshot_id = None, endpoint = None\<rparr>"

text \<open>Devices that answer every upload with status 401, or once with 401 and then with 404,
  or once with 401 and then with \<open>err = 0\<close>; the file progress before a transfer; a demand
  whose download reports 100 once.\<close>

definition always_401 :: "nat \<Rightarrow> upload_attempt" where
  "always_401 k = \<lparr>up_progress = [], up_outcome = UploadRaises (ClientResponseError 401),
                   up_reconnect = None\<rparr>"

definition retry_then_404 :: "nat \<Rightarrow> upload_attempt" where
  "retry_then_404 k =
     (if k = 0
      then \<lparr>up_progress = [100], up_outcome = UploadRaises (ClientResponseError 401),
            up_reconnect = None\<rparr>
      else \<lparr>up_progress = [0], up_outcome = UploadRaises (ClientResponseError 404),
            up_reconnect = None\<rparr>)"

definition retry_then_ok :: "nat \<Rightarrow> upload_attempt" where
  "retry_then_ok k =
     (if k = 0
      then \<lparr>up_progress = [100], up_outcome = UploadRaises (ClientResponseError 401),
            up_reconnect = None\<rparr>
      else \<lparr>up_progress = [0, 100], up_outcome = UploadReturns 0, up_reconnect = None\<rparr>)"

definition no_transfer :: file_progress where
  "no_transfer = \<lparr>fp_state = FP_READY, fp_percent = 0, fp_trace = []\<rparr>"

definition demand :: "(nat \<Rightarrow> upload_attempt) \<Rightarrow> file_demand" where
  "demand dev = \<lparr>fd_download = \<lparr>dl_progress = [100], dl_raises = None\<rparr>, fd_uploads = dev,
                 fd_auto_start = False, fd_polls = []\<rparr>"

text \<open>A transfer that succeeds at the first upload and starts the print at the second
  readiness poll; a transfer whose upload the device rejects.\<close>

definition upload_then_start :: file_demand where
  "upload_then_start =
     \<lparr>fd_download = \<lparr>dl_progress = [0, 50, 100], dl_raises = None\<rparr>,
      fd_uploads = (\<lambda>k. \<lparr>up_progress = [10, 100], up_outcome = UploadReturns 0,
                           up_reconnect = None\<rparr>),
      fd_auto_start = True,
      fd_polls = [\<lparr>poll_time = 1, poll_result = PollTransient, poll_time_after = 2\<rparr>,
                  \<lparr>poll_time = 3, poll_result = PollReturns 0, poll_time_after = 4\<rparr>]\<rparr>"

definition upload_rejected :: file_demand where
  "upload_rejected =
     \<lparr>fd_download = \<lparr>dl_progress = [100], dl_raises = None\<rparr>,
      fd_uploads = (\<lambda>k. \<lparr>up_progress = [40], up_outcome = UploadReturns 1,
                           up_reconnect = None\<rparr>),
      fd_auto_start = True, fd_polls = []\<rparr>"

section \<open>Subscripting with string keys\<close>

lemma getitem_str_exc: "getitem j (JStr k) = Inl e \<Longrightarrow> e = KeyError \<or> e = TypeError"
  by (cases j) (auto split: option.splits)

lemma getpath_two_keys_exc:
  "getpath om [JStr a, JStr b] = Inl e \<Longrightarrow> e = KeyError \<or> e = TypeError"
  by (auto split: sum.splits dest: getitem_str_exc)

section \<open>Temperature mapping: the heater whose state is tested\<close>

text \<open>
  C2. The claim: the bed target is 0.0 whenever the bed's own heater reports \<open>off\<close>, a
  tool's target is 0.0 whenever that tool's own heater reports \<open>off\<close>, otherwise the target
  is that heater's \<open>active\<close> value. The code tests \<open>heaters[0]\<close> for the bed and
  \<open>heaters[1]\<close> for every tool. Here the bed's heater (index 1) is off and the bed target
  becomes 60; the tool's heater (index 0) is active at 210 and the tool target becomes 0.0.
\<close>

theorem update_temperatures_tests_fixed_heaters:
  "getpath heaters_swapped [JStr ''heat'', JStr ''heaters'', JInt 1, JStr ''state'']
     = Inr (JStr ''off'')
   \<and> getpath heaters_swapped [JStr ''heat'', JStr ''heaters'', JInt 0, JStr ''state'']
     = Inr (JStr ''active'')
   \<and> update_temperatures heaters_swapped one_tool =
      (\<lparr>bed_temperature = \<lparr>actual = JFloat 25, target = JFloat 60\<rparr>,
        tool_temperatures = [\<lparr>actual = JFloat 210, target = JFloat 0\<rparr>],
        ambient_temperature = JInt 20\<rparr>, None)"
  by (simp add: heaters_swapped_def one_tool_def update_temperatures_def seq_getitem_def)

section \<open>Temperature mapping: missing heater data\<close>

text \<open>
  C8. The claim: for a snapshot that lacks heater entries (absent keys, absent list
  entries, absent heater records) the temperature step sets the actual temperature to 0.0
  and no exception leaves the handler. The handler catches \<open>KeyError\<close> only: with an empty
  list of heaters the subscript raises \<open>IndexError\<close>, which leaves the handler, and no
  temperature is written.
\<close>

theorem on_objectmodel_temperatures_index_error:
  "on_objectmodel_temperatures no_heaters one_tool = (one_tool, Some IndexError)"
  by (simp add: no_heaters_def on_objectmodel_temperatures_def update_temperatures_def
      seq_getitem_def)

section \<open>Status mapping\<close>

lemma is_printing_char:
  "is_printing om st =
     Inr (st \<in> {PRINTING, PAUSED, PAUSING, RESUMING} \<or>
          (\<exists>kvs v. getpath om [JStr ''job'', JStr ''file''] = Inr (JObj kvs)
             \<and> map_of kvs ''filename'' = Some v \<and> v \<noteq> JNull))"
proof (cases "st \<in> {PRINTING, PAUSED, PAUSING, RESUMING}")
  case True
  then show ?thesis by (simp add: is_printing_def)
next
  case False
  show ?thesis
  proof (cases "getpath om [JStr ''job'', JStr ''file'']")
    case (Inl e)
    then have "e = KeyError \<or> e = TypeError" by (rule getpath_two_keys_exc)
    with Inl False show ?thesis
      by (auto simp add: is_printing_def except_key_type_def simp del: getpath.simps)
  next
    case (Inr js)
    with False show ?thesis
      by (cases js)
         (auto simp add: is_printing_def except_key_type_def simp del: getpath.simps
               split: option.splits bool.splits)
  qed
qed

text \<open>
  C4. \<open>_is_printing\<close> is true exactly when the current status is one of PRINTING, PAUSED,
  PAUSING, RESUMING, or the object model's job file is a dictionary with a \<open>filename\<close> that
  is not \<open>None\<close>. For a device state string \<open>s\<close>, the new status is looked up in the
  printing table if and only if \<open>_is_printing\<close> is true, in the other table otherwise, and
  a string that the selected table does not hold gives OFFLINE.
\<close>

theorem status_mapping_selects_table:
  assumes "getpath om [JStr ''state'', JStr ''status''] = Inr (JStr s)"
  shows "\<exists>printing.
           is_printing om st = Inr printing
         \<and> printing = (st \<in> {PRINTING, PAUSED, PAUSING, RESUMING} \<or>
              (\<exists>kvs v. getpath om [JStr ''job'', JStr ''file''] = Inr (JObj kvs)
                 \<and> map_of kvs ''filename'' = Some v \<and> v \<noteq> JNull))
         \<and> map_duet_state_to_printer_status om st =
             ((case map_of (if printing then duet_state_simplyprint_status_while_printing_mapping
                            else duet_state_simplyprint_status_mapping) s of
                 None \<Rightarrow> OFFLINE | Some new_status \<Rightarrow> new_status), None)
         \<and> (map_of (if printing then duet_state_simplyprint_status_while_printing_mapping
                     else duet_state_simplyprint_status_mapping) s = None
              \<longrightarrow> map_duet_state_to_printer_status om st = (OFFLINE, None))"
  using assms
  by (simp add: is_printing_char map_duet_state_to_printer_status_def except_key_type_def
      del: getpath.simps)

theorem status_mapping_selects_table_witness:
  "getpath busy_with_job [JStr ''state'', JStr ''status''] = Inr (JStr ''busy'')
   \<and> map_duet_state_to_printer_status busy_with_job OPERATIONAL = (PRINTING, None)
   \<and> map_duet_state_to_printer_status (JObj [(''state'', JObj [(''status'', JStr ''busy'')])])
        OPERATIONAL = (OPERATIONAL, None)
   \<and> map_duet_state_to_printer_status (JObj [(''state'', JObj [(''status'', JStr ''dancing'')])])
        PRINTING = (OFFLINE, None)"
  using status_mapping_selects_table [of busy_with_job "''busy''" OPERATIONAL]
    status_mapping_selects_table
      [of "JObj [(''state'', JObj [(''status'', JStr ''busy'')])]" "''busy''" OPERATIONAL]
    status_mapping_selects_table
      [of "JObj [(''state'', JObj [(''status'', JStr ''dancing'')])]" "''dancing''" PRINTING]
  by (simp add: busy_with_job_def duet_state_simplyprint_status_while_printing_mapping_def
      duet_state_simplyprint_status_mapping_def map_duet_state_to_printer_status_def
      is_printing_def except_key_type_def)

section \<open>Job progress\<close>




text \<open>The exceptions the \<open>except\<close> clause does not list leave \<open>_update_job_progress\<close>: an
  extrusion counter too large for a float, and one that is not finite (the progress is
  written before \<open>round\<close> raises).\<close>

lemma job_progress_overflow_escapes:
  "update_job_progress (\<lambda>s. None)
     (JObj [(''file'', JObj [(''filament'', JList [JInt 100])]),
            (''rawExtrusion'', JInt (10 ^ 400))]) fresh_job_info
   = (fresh_job_info, Some OverflowError)"
  by (simp add: update_job_progress_def job_progress_except_def int_to_float_def
      float_limit_def)

lemma job_progress_round_escapes:
  "update_job_progress (\<lambda>s. Some PosInf)
     (JObj [(''file'', JObj [(''filament'', JList [JInt 100])]),
            (''rawExtrusion'', JStr ''inf'')]) fresh_job_info
   = (fresh_job_info\<lparr>progress := Finite 100\<rparr>, Some OverflowError)"
  by (simp add: update_job_progress_def job_progress_except_def int_to_float_def
      float_limit_def)




section \<open>Device identity on connect\<close>




section \<open>Webcam frame buffer\<close>

lemma store_frame_inv:
  "length q \<le> 3 \<Longrightarrow> store_frame q x = Some ((if length q = 3 then tl q else q) @ [x])"
  by (cases q) (auto simp add: store_frame_def queue_full_def queue_get_def queue_put_def
      webcam_frame_maxsize_def)

lemma store_frames_inv:
  "length q \<le> 3 \<Longrightarrow> store_frames q xs = Some (drop (length (q @ xs) - 3) (q @ xs))"
proof (induction xs arbitrary: q)
  case Nil
  then show ?case by simp
next
  case (Cons x xs)
  show ?case
  proof (cases "length q = 3")
    case True
    then obtain a q' where q: "q = a # q'" "length q' = 2" by (cases q) auto
    with Cons.IH [of "q' @ [x]"] Cons.prems show ?thesis
      by (simp add: store_frame_inv)
  next
    case False
    with Cons.prems have "length q < 3" by simp
    with Cons.IH [of "q @ [x]"] show ?thesis
      by (simp add: store_frame_inv)
  qed
qed

lemma run_frame_ops_inv:
  "length q \<le> 3 \<Longrightarrow> \<exists>q'. run_frame_ops q ops = Some q' \<and> length q' \<le> 3"
proof (induction q ops rule: run_frame_ops.induct)
  case (1 q)
  then show ?case by simp
next
  case (2 q x ops)
  then show ?case by (cases q) (auto simp add: store_frame_inv)
next
  case (3 q ops)
  then show ?case by (cases q) (auto simp add: queue_get_def)
qed

text \<open>
  C9. Storing a frame in a buffer of at most 3 frames never waits: a full buffer first
  loses its oldest frame, and the result again holds at most 3 frames. Starting from the
  empty buffer, after any sequence of frames the buffer holds the last 3 of them, and with
  a consumer taking frames in between it never holds more than 3 and the producer never
  waits.
\<close>

theorem webcam_frame_buffer_bounded:
  "(length q \<le> 3 \<longrightarrow>
      store_frame q x = Some ((if length q = 3 then tl q else q) @ [x])
    \<and> length ((if length q = 3 then tl q else q) @ [x]) \<le> 3)
   \<and> store_frames [] xs = Some (drop (length xs - 3) xs)
   \<and> (\<exists>q'. run_frame_ops [] ops = Some q' \<and> length q' \<le> 3)"
proof -
  have "length q \<le> 3 \<longrightarrow> length ((if length q = 3 then tl q else q) @ [x]) \<le> 3"
    by (cases q) auto
  moreover have "store_frames [] xs = Some (drop (length xs - 3) xs)"
    using store_frames_inv [of "[]" xs] by simp
  moreover have "\<exists>q'. run_frame_ops [] ops = Some q' \<and> length q' \<le> 3"
    by (rule run_frame_ops_inv) simp
  ultimately show ?thesis by (simp add: store_frame_inv)
qed

theorem webcam_frame_buffer_bounded_witness:
  "length [1, 2, 3 :: nat] \<le> 3
   \<and> store_frame [1, 2, 3 :: nat] 4 = Some [2, 3, 4]
   \<and> store_frames [] [1, 2, 3, 4, 5 :: nat] = Some [3, 4, 5]
   \<and> run_frame_ops [] [Store 1, Store 2, Fetch, Store 3, Store 4, Store (5 :: nat)]
       = Some [3, 4, 5]"
  using webcam_frame_buffer_bounded [of "[1, 2, 3 :: nat]" 4 "[1, 2, 3, 4, 5]"
      "[Store 1, Store 2, Fetch, Store 3, Store 4, Store 5]"]
  by (simp add: store_frame_def queue_full_def queue_get_def queue_put_def
      webcam_frame_maxsize_def)

section \<open>Command filter\<close>







section \<open>Webcam distribution task\<close>

lemma webcam_step_inv:
  assumes "distribution_tasks w = [] \<or>
     (\<exists>t. distribution_tasks w = [t] \<and> webcam_distribution_task_handle w = Some t)"
  shows "distribution_tasks (webcam_step uri w ev) = [] \<or>
     (\<exists>t. distribution_tasks (webcam_step uri w ev) = [t]
        \<and> webcam_distribution_task_handle (webcam_step uri w ev) = Some t)"
  using assms
  by (cases ev)
     (auto simp add: on_webcam_snapshot_def distribution_loop_test_def
        distribution_loop_body_def split: list.splits)

lemma webcam_foldl_inv:
  "distribution_tasks w = [] \<or>
     (\<exists>t. distribution_tasks w = [t] \<and> webcam_distribution_task_handle w = Some t) \<Longrightarrow>
   distribution_tasks (foldl (webcam_step uri) w evs) = [] \<or>
     (\<exists>t. distribution_tasks (foldl (webcam_step uri) w evs) = [t]
        \<and> webcam_distribution_task_handle (foldl (webcam_step uri) w evs) = Some t)"
proof (induction evs arbitrary: w)
  case Nil
  then show ?case by simp
next
  case (Cons ev evs)
  from Cons.prems have "distribution_tasks (webcam_step uri w ev) = [] \<or>
     (\<exists>t. distribution_tasks (webcam_step uri w ev) = [t]
        \<and> webcam_distribution_task_handle (webcam_step uri w ev) = Some t)"
    by (rule webcam_step_inv)
  then show ?case using Cons.IH [of "webcam_step uri w ev"] by simp
qed

lemma webcam_run_inv:
  "distribution_tasks (webcam_run uri evs) = [] \<or>
     (\<exists>t. distribution_tasks (webcam_run uri evs) = [t]
        \<and> webcam_distribution_task_handle (webcam_run uri evs) = Some t)"
  unfolding webcam_run_def
  by (rule webcam_foldl_inv) (simp add: initialize_webcam_def)

lemma handle_reset_only_at_exit:
  "webcam_distribution_task_handle w \<noteq> None
      \<and> webcam_distribution_task_handle (webcam_step uri w ev) = None
    \<longrightarrow> (\<exists>tid now. ev = LoopTest tid now \<and> tid \<in> set (distribution_tasks w)
           \<and> tid \<notin> set (distribution_tasks (webcam_step uri w ev)))"
  by (cases ev)
     (auto simp add: on_webcam_snapshot_def distribution_loop_test_def
        distribution_loop_body_def split: list.splits if_splits)

text \<open>
  C10. After any sequence of snapshot demands, task steps, disconnections and
  connections, at most one distribution task is alive, and a living task is the one the
  handle names. A snapshot demand creates a task exactly when the handle is \<open>None\<close> and a
  webcam URI is configured. The handle goes back to \<open>None\<close> only at the failing loop test
  of a living task, which ends that task.
\<close>

theorem single_distribution_task:
  "length (distribution_tasks (webcam_run uri evs)) \<le> 1
   \<and> (\<forall>t \<in> set (distribution_tasks (webcam_run uri evs)).
        webcam_distribution_task_handle (webcam_run uri evs) = Some t)
   \<and> tasks_created (on_webcam_snapshot uri now r w)
       = (if webcam_distribution_task_handle w = None \<and> uri \<noteq> None
          then Suc (tasks_created w) else tasks_created w)
   \<and> distribution_tasks (on_webcam_snapshot uri now r w)
       = (if webcam_distribution_task_handle w = None \<and> uri \<noteq> None
          then distribution_tasks w @ [tasks_created w] else distribution_tasks w)
   \<and> (webcam_distribution_task_handle w \<noteq> None
      \<and> webcam_distribution_task_handle (webcam_step uri w ev) = None
    \<longrightarrow> (\<exists>tid now. ev = LoopTest tid now \<and> tid \<in> set (distribution_tasks w)
           \<and> tid \<notin> set (distribution_tasks (webcam_step uri w ev))))"
  using webcam_run_inv [of uri evs] handle_reset_only_at_exit [of w uri ev]
  by (auto simp add: on_webcam_snapshot_def)

theorem single_distribution_task_witness:
  "webcam_run (Some ''http://cam/stream'')
     [SnapshotDemand 0 live_request, SnapshotDemand 1 live_request, LoopTest 0 5,
      SnapshotDemand 6 live_request, LoopBody 0 True, LoopTest 0 20,
      SnapshotDemand 21 live_request, SnapshotDemand 22 live_request]
   = \<lparr>webcam_timeout = 32, webcam_distribution_task_handle = Some 1,
      requested_webcam_snapshots = [live_request, live_request, live_request, live_request],
      is_stopped = False, distribution_tasks = [1], tasks_created = 2\<rparr>"
  using single_distribution_task [of "Some ''http://cam/stream''"
      "[SnapshotDemand 0 live_request, SnapshotDemand 1 live_request, LoopTest 0 5,
        SnapshotDemand 6 live_request, LoopBody 0 True, LoopTest 0 20,
        SnapshotDemand 21 live_request, SnapshotDemand 22 live_request]"
      16 live_request
      "webcam_run (Some ''http://cam/stream'')
         [SnapshotDemand 0 live_request, SnapshotDemand 1 live_request, LoopTest 0 5,
          SnapshotDemand 6 live_request, LoopBody 0 True]"
      "LoopTest 0 20"]
  by (simp add: webcam_run_def initialize_webcam_def on_webcam_snapshot_def
      distribution_loop_test_def distribution_loop_body_def live_request_def)

section \<open>File transfer: the upload loop\<close>

text \<open>
  C1. The claim: at most 3 upload attempts; a retryable failure (status 401 or 500) is
  followed by a reconnect; when all 3 attempts fail with retryable errors the last error
  leaves the upload loop; any other status leaves it at once. On three failures with
  status 401 the loop makes 3 attempts and 3 reconnects and then ends because \<open>retries\<close>
  is 0, without an exception: the pipeline goes on and reports the file READY at 100
  percent.
\<close>

theorem upload_loop_swallows_last_retryable_error:
  "async_supress (download_file_from_sp_and_upload_to_duet (demand always_401) no_transfer)
   = (\<lparr>fp_state = FP_READY, fp_percent = 100,
        fp_trace = [SetState FP_DOWNLOADING, SetPercent 0, SetPercent 50,
                    UploadStream, Reconnect, UploadStream, Reconnect, UploadStream, Reconnect,
                    SetPercent 100, SetState FP_READY]\<rparr>, None)"
  by (simp add: download_file_from_sp_and_upload_to_duet_def download_phase_def demand_def
      always_401_def no_transfer_def async_supress_def set_state_def set_percent_def
      log_event_def clamp_progress_def finish_transfer_def eval_nat_numeral)

lemma round_half_even_50: "round_half_even 50 = 50" by (simp add: round_half_even_def)
lemma round_half_even_100: "round_half_even 100 = 100" by (simp add: round_half_even_def)

section \<open>File transfer: percent and end state\<close>

text \<open>
  C3, the claim as stated: in every execution the percent sequence is non-decreasing.
  Here the first upload reports 100 and fails with status 401, the device reconnects, and
  the second upload reports 0 and 100 and returns \<open>err = 0\<close>: a success path, which ends
  READY at 100, and on which the percent goes 0, 50, 90, 50, 90, 100. The upload callback
  computes the percent from the progress of the running attempt alone; nowhere is it
  compared with the percent reported before.
\<close>

theorem transfer_percent_regresses_on_retry:
  "async_supress (download_file_from_sp_and_upload_to_duet (demand retry_then_ok) no_transfer)
   = (\<lparr>fp_state = FP_READY, fp_percent = 100,
        fp_trace = [SetState FP_DOWNLOADING, SetPercent 0, SetPercent 50,
                    UploadStream, SetPercent 90, Reconnect,
                    UploadStream, SetPercent 50, SetPercent 90,
                    SetPercent 100, SetState FP_READY]\<rparr>, None)
   \<and> \<not> sorted (percents (fp_trace (fst (async_supress
           (download_file_from_sp_and_upload_to_duet (demand retry_then_ok) no_transfer)))))"
proof -
  have run:
    "async_supress (download_file_from_sp_and_upload_to_duet (demand retry_then_ok) no_transfer)
     = (\<lparr>fp_state = FP_READY, fp_percent = 100,
          fp_trace = [SetState FP_DOWNLOADING, SetPercent 0, SetPercent 50,
                      UploadStream, SetPercent 90, Reconnect,
                      UploadStream, SetPercent 50, SetPercent 90,
                      SetPercent 100, SetState FP_READY]\<rparr>, None)"
    by (simp add: download_file_from_sp_and_upload_to_duet_def download_phase_def demand_def
        retry_then_ok_def no_transfer_def async_supress_def set_state_def set_percent_def
        log_event_def clamp_progress_def finish_transfer_def eval_nat_numeral
        upload_file_progress_def upload_percent_def round_half_even_50 round_half_even_100)
  show ?thesis by (simp add: run)
qed

lemma round_half_even_mono: "x \<le> y \<Longrightarrow> round_half_even x \<le> round_half_even y"
proof -
  assume xy: "x \<le> y"
  have fl: "\<lfloor>x\<rfloor> \<le> \<lfloor>y\<rfloor>" using xy by (rule floor_mono)
  have lo: "\<lfloor>y\<rfloor> \<le> round_half_even y" by (simp add: round_half_even_def)
  have hi: "round_half_even x \<le> \<lfloor>x\<rfloor> + 1" by (simp add: round_half_even_def)
  show ?thesis
  proof (cases "\<lfloor>x\<rfloor> < \<lfloor>y\<rfloor>")
    case True
    with lo hi show ?thesis by linarith
  next
    case False
    with fl have eq: "\<lfloor>x\<rfloor> = \<lfloor>y\<rfloor>" by simp
    with xy show ?thesis by (auto simp add: round_half_even_def)
  qed
qed

lemma round_half_even_ge: "of_int n \<le> x \<Longrightarrow> n \<le> round_half_even x"
proof -
  assume "of_int n \<le> x"
  then have "n \<le> \<lfloor>x\<rfloor>" by (simp add: le_floor_iff)
  moreover have "\<lfloor>x\<rfloor> \<le> round_half_even x" by (simp add: round_half_even_def)
  ultimately show ?thesis by simp
qed

lemma clamp_progress_mono: "x \<le> y \<Longrightarrow> clamp_progress x \<le> clamp_progress y"
  by (simp add: clamp_progress_def max_def min_def)

lemma clamp_progress_range: "0 \<le> clamp_progress x \<and> clamp_progress x \<le> 50"
  by (simp add: clamp_progress_def)

lemma upload_percent_mono: "x \<le> y \<Longrightarrow> upload_percent x \<le> upload_percent y"
proof -
  assume "x \<le> y"
  then have "50 + max 0 (min 50 (x / 2)) \<le> 50 + max 0 (min 50 (y / 2))"
    by (simp add: max_def min_def)
  then have "round_half_even (50 + max 0 (min 50 (x / 2))) \<le> round_half_even (50 + max 0 (min 50 (y / 2)))"
    by (rule round_half_even_mono)
  then show ?thesis by (simp add: upload_percent_def min_def)
qed

lemma upload_percent_range: "50 \<le> upload_percent x \<and> upload_percent x \<le> 90"
proof -
  have "(of_int 50 :: real) \<le> 50 + max 0 (min 50 (x / 2))" by simp
  then have "50 \<le> round_half_even (50 + max 0 (min 50 (x / 2)))" by (rule round_half_even_ge)
  then have "(50 :: real) \<le> of_int (round_half_even (50 + max 0 (min 50 (x / 2))))" by linarith
  then show ?thesis by (simp add: upload_percent_def)
qed

lemma readiness_percent_mono: "x \<le> y \<Longrightarrow> readiness_percent x \<le> readiness_percent y"
  by (simp add: readiness_percent_def min_def)

lemma readiness_percent_range:
  "readiness_percent x \<le> 999 / 10 \<and> (0 \<le> x \<longrightarrow> 90 \<le> readiness_percent x)"
  by (simp add: readiness_percent_def min_def)


lemma percents_append: "percents (xs @ ys) = percents xs @ percents ys"
  by (induction xs rule: percents.induct) simp_all

lemma set_percent_fields [simp]:
  "fp_trace (set_percent x t) = fp_trace t @ [SetPercent x]"
  "fp_state (set_percent x t) = fp_state t"
  "fp_percent (set_percent x t) = x"
  by (simp_all add: set_percent_def)

lemma set_state_fields [simp]:
  "fp_trace (set_state st t) = fp_trace t @ [SetState st]"
  "fp_state (set_state st t) = st"
  "fp_percent (set_state st t) = fp_percent t"
  by (simp_all add: set_state_def)

lemma log_event_fields [simp]:
  "fp_trace (log_event ev t) = fp_trace t @ [ev]"
  "fp_state (log_event ev t) = fp_state t"
  "fp_percent (log_event ev t) = fp_percent t"
  by (simp_all add: log_event_def)

lemma percents_event [simp]:
  "percents [SetPercent x] = [x]"
  "percents [SetState st] = []"
  "percents [UploadStream] = []"
  "percents [Reconnect] = []"
  "percents [StartPrint] = []"
  by simp_all

lemma foldl_percent_trace:
  "percents (fp_trace (foldl (\<lambda>t x. set_percent (f x) t) t xs)) = percents (fp_trace t) @ map f xs"
  by (induction xs arbitrary: t) (simp_all add: percents_append)

lemma foldl_percent_state:
  "fp_state (foldl (\<lambda>t x. set_percent (f x) t) t xs) = fp_state t"
  by (induction xs arbitrary: t) simp_all

lemma foldl_percent_bound:
  "fp_percent t \<le> b \<Longrightarrow> (\<And>x. f x \<le> b) \<Longrightarrow>
   fp_percent (foldl (\<lambda>t x. set_percent (f x) t) t xs) \<le> b"
  by (induction xs arbitrary: t) simp_all

lemma download_phase_facts:
  "percents (fp_trace (download_phase event t))
     = percents (fp_trace t) @ 0 # map clamp_progress (dl_progress (fd_download event))"
  "fp_state (download_phase event t) = FP_DOWNLOADING"
  "fp_percent (download_phase event t) \<le> 50"
proof -
  show "percents (fp_trace (download_phase event t))
     = percents (fp_trace t) @ 0 # map clamp_progress (dl_progress (fd_download event))"
    by (simp add: download_phase_def foldl_percent_trace percents_append)
  show "fp_state (download_phase event t) = FP_DOWNLOADING"
    by (simp add: download_phase_def foldl_percent_state)
  show "fp_percent (download_phase event t) \<le> 50"
    unfolding download_phase_def
    by (rule foldl_percent_bound) (simp_all add: clamp_progress_range)
qed

lemma attempt_facts:
  "percents (fp_trace (foldl (\<lambda>t p. upload_file_progress p t) (log_event UploadStream t) ps))
     = percents (fp_trace t) @ map upload_percent ps"
  "fp_state (foldl (\<lambda>t p. upload_file_progress p t) (log_event UploadStream t) ps) = fp_state t"
  "fp_percent t \<le> 90 \<Longrightarrow>
     fp_percent (foldl (\<lambda>t p. upload_file_progress p t) (log_event UploadStream t) ps) \<le> 90"
proof -
  show "percents (fp_trace (foldl (\<lambda>t p. upload_file_progress p t) (log_event UploadStream t) ps))
     = percents (fp_trace t) @ map upload_percent ps"
    by (simp add: upload_file_progress_def foldl_percent_trace percents_append)
  show "fp_state (foldl (\<lambda>t p. upload_file_progress p t) (log_event UploadStream t) ps) = fp_state t"
    by (simp add: upload_file_progress_def foldl_percent_state)
  show "fp_percent t \<le> 90 \<Longrightarrow>
     fp_percent (foldl (\<lambda>t p. upload_file_progress p t) (log_event UploadStream t) ps) \<le> 90"
    unfolding upload_file_progress_def
    by (rule foldl_percent_bound) (simp_all add: upload_percent_range)
qed

lemma upload_loop_state:
  "fp_state (fst (upload_loop dev r k t))
     = (if snd (upload_loop dev r k t) = LoopReturn then FP_ERROR else fp_state t)"
  by (induction r arbitrary: k t)
     (simp_all add: attempt_facts split: upload_outcome.splits option.splits)

lemma upload_loop_bound:
  "fp_percent t \<le> 90 \<Longrightarrow> fp_percent (fst (upload_loop dev r k t)) \<le> 90"
  by (induction r arbitrary: k t)
     (simp_all add: attempt_facts split: upload_outcome.splits option.splits)

lemma count_uploads_append:
  "length (filter (\<lambda>ev. ev = UploadStream) (xs @ ys))
     = length (filter (\<lambda>ev. ev = UploadStream) xs) + length (filter (\<lambda>ev. ev = UploadStream) ys)"
  by simp

lemma foldl_percent_uploads:
  "filter (\<lambda>ev. ev = UploadStream) (fp_trace (foldl (\<lambda>t x. set_percent (f x) t) t xs))
     = filter (\<lambda>ev. ev = UploadStream) (fp_trace t)"
  by (induction xs arbitrary: t) simp_all

lemma upload_attempts_le: "upload_attempts dev r k \<le> r"
  by (induction r arbitrary: k) (simp_all split: upload_outcome.splits)

lemma upload_loop_attempts:
  "length (filter (\<lambda>ev. ev = UploadStream) (fp_trace (fst (upload_loop dev r k t))))
     = length (filter (\<lambda>ev. ev = UploadStream) (fp_trace t)) + upload_attempts dev r k"
  by (induction r arbitrary: k t)
     (simp_all add: upload_file_progress_def foldl_percent_uploads
        split: upload_outcome.splits option.splits)

lemma upload_loop_percents:
  "percents (fp_trace (fst (upload_loop dev r k t)))
     = percents (fp_trace t)
       @ map upload_percent
           (concat (map (\<lambda>i. up_progress (dev i)) [k..<k + upload_attempts dev r k]))"
proof (induction r arbitrary: k t)
  case 0
  then show ?case by simp
next
  case (Suc r)
  have split: "concat (map (\<lambda>i. up_progress (dev i)) [k..<k + Suc n])
      = up_progress (dev k) @ concat (map (\<lambda>i. up_progress (dev i)) [Suc k..<Suc k + n])" for n
  proof -
    have "[k..<k + Suc n] = k # [Suc k..<Suc k + n]"
      using upt_conv_Cons [of k "k + Suc n"] by (simp del: upt_Suc)
    then show ?thesis by (simp del: upt_Suc)
  qed
  have one: "concat (map (\<lambda>i. up_progress (dev i)) [k..<k + 1]) = up_progress (dev k)"
    by simp
  show ?case
    using Suc.IH split one
    by (simp add: attempt_facts percents_append del: upt_Suc
        split: upload_outcome.splits option.splits)
qed

lemma auto_start_state: "fp_state (fst (auto_start_file ps t)) = fp_state t"
  by (induction ps arbitrary: t) (simp_all split: poll_outcome.splits)

lemma readiness_percent_lt: "readiness_percent x < 100"
  by (simp add: readiness_percent_def min_def)

lemma auto_start_bound:
  "fp_percent t < 100 \<Longrightarrow> fp_percent (fst (auto_start_file ps t)) < 100"
  by (induction ps arbitrary: t)
     (simp_all add: readiness_percent_lt split: poll_outcome.splits)

lemma auto_start_percents:
  "\<exists>ts rest. map poll_time_after ps = ts @ rest
     \<and> percents (fp_trace (fst (auto_start_file ps t)))
         = percents (fp_trace t) @ map readiness_percent ts"
proof (induction ps arbitrary: t)
  case Nil
  then show ?case by simp
next
  case (Cons p ps)
  have here: "\<exists>ts rest. map poll_time_after (p # ps) = ts @ rest
     \<and> percents (fp_trace t) = percents (fp_trace t) @ map readiness_percent ts"
    by (rule exI [of _ "[]"]) simp
  from Cons.IH [of "set_percent (readiness_percent (poll_time_after p)) t"]
  obtain ts rest where
    ih: "map poll_time_after ps = ts @ rest"
        "percents (fp_trace (fst (auto_start_file ps
            (set_percent (readiness_percent (poll_time_after p)) t))))
           = percents (fp_trace (set_percent (readiness_percent (poll_time_after p)) t))
               @ map readiness_percent ts"
    by blast
  have there: "\<exists>ts rest. map poll_time_after (p # ps) = ts @ rest
     \<and> percents (fp_trace (fst (auto_start_file ps
            (set_percent (readiness_percent (poll_time_after p)) t))))
         = percents (fp_trace t) @ map readiness_percent ts"
  proof (intro exI conjI)
    show "map poll_time_after (p # ps) = (poll_time_after p # ts) @ rest"
      using ih(1) by simp
    show "percents (fp_trace (fst (auto_start_file ps
            (set_percent (readiness_percent (poll_time_after p)) t))))
         = percents (fp_trace t) @ map readiness_percent (poll_time_after p # ts)"
      using ih(2) by (simp add: percents_append)
  qed
  show ?case
    using here there by (simp add: percents_append split: poll_outcome.splits)
qed

lemma sorted_map_mono:
  "sorted xs \<Longrightarrow> (\<And>x y. x \<le> y \<Longrightarrow> f x \<le> f y) \<Longrightarrow> sorted (map f xs)"
  by (induction xs) auto

lemma sorted_phases:
  assumes "sorted dl" and "sorted (us @ rest)" and "sorted (ts @ rest')"
      and "\<forall>x \<in> set ts. 0 \<le> x"
  shows "sorted ((0 # map clamp_progress dl) @ map upload_percent us
           @ map readiness_percent ts @ [100])"
proof -
  have d: "sorted (map clamp_progress dl)"
    using assms(1) by (rule sorted_map_mono) (rule clamp_progress_mono)
  have "sorted us" using assms(2) by (simp add: sorted_append)
  then have u: "sorted (map upload_percent us)"
    by (rule sorted_map_mono) (rule upload_percent_mono)
  have "sorted ts" using assms(3) by (simp add: sorted_append)
  then have a: "sorted (map readiness_percent ts)"
    by (rule sorted_map_mono) (rule readiness_percent_mono)
  have r1: "0 \<le> clamp_progress x \<and> clamp_progress x \<le> 50" for x
    by (rule clamp_progress_range)
  have r2: "50 \<le> upload_percent x \<and> upload_percent x \<le> 90" for x
    by (rule upload_percent_range)
  have r3: "90 \<le> readiness_percent x \<and> readiness_percent x \<le> 100" if "x \<in> set ts" for x
    using that assms(4) readiness_percent_range [of x] by auto
  have du: "clamp_progress x \<le> upload_percent y" for x y
    using r1 [of x] r2 [of y] by linarith
  have da: "clamp_progress x \<le> readiness_percent y" if "y \<in> set ts" for x y
    using r1 [of x] r3 [OF that] by linarith
  have ua: "upload_percent x \<le> readiness_percent y" if "y \<in> set ts" for x y
    using r2 [of x] r3 [OF that] by linarith
  have d1: "clamp_progress x \<le> 100" for x using r1 [of x] by linarith
  have u1: "upload_percent x \<le> 100" for x using r2 [of x] by linarith
  have u0: "0 \<le> upload_percent x" for x using r2 [of x] by linarith
  have a0: "0 \<le> readiness_percent x" if "x \<in> set ts" for x using r3 [OF that] by linarith
  show ?thesis
    using d u a r1 r3 du da ua d1 u1 u0 a0
    by (auto simp add: sorted_append)
qed


lemma sorted_prefix: "sorted (xs @ ys) \<Longrightarrow> sorted xs"
  by (simp add: sorted_append)

lemma transfer_percents_sorted:
  assumes "fp_trace t = []"
      and "sorted (dl_progress (fd_download event))"
      and "sorted (concat (map (\<lambda>k. up_progress (fd_uploads event k))
                     [0..<upload_attempts (fd_uploads event) 3 0]))"
      and "sorted (map poll_time_after (fd_polls event))"
      and "\<forall>p \<in> set (fd_polls event). 0 \<le> poll_time_after p"
  shows "sorted (percents (fp_trace (fst (download_file_from_sp_and_upload_to_duet event t))))"
proof -
  obtain t2 ex where u: "upload_loop (fd_uploads event) 3 0 (download_phase event t) = (t2, ex)"
    by (cases "upload_loop (fd_uploads event) 3 0 (download_phase event t)")
  obtain t3 eo where a: "auto_start_file (fd_polls event) t2 = (t3, eo)"
    by (cases "auto_start_file (fd_polls event) t2")
  let ?D = "0 # map clamp_progress (dl_progress (fd_download event))"
  have d: "percents (fp_trace (download_phase event t)) = ?D"
    using assms(1) by (simp add: download_phase_facts)
  define us where
    "us = concat (map (\<lambda>k. up_progress (fd_uploads event k))
                   [0..<upload_attempts (fd_uploads event) 3 0])"
  have us: "percents (fp_trace (fst (upload_loop (fd_uploads event) 3 0 (download_phase event t))))
           = percents (fp_trace (download_phase event t)) @ map upload_percent us"
    using upload_loop_percents [of "fd_uploads event" 3 0 "download_phase event t"]
    by (simp add: us_def)
  obtain ts rest' where
    ts: "map poll_time_after (fd_polls event) = ts @ rest'"
        "percents (fp_trace (fst (auto_start_file (fd_polls event) t2)))
           = percents (fp_trace t2) @ map readiness_percent ts"
    using auto_start_percents [of "fd_polls event" t2] by blast
  have p2: "percents (fp_trace t2) = ?D @ map upload_percent us"
    using us u d by simp
  have p3: "percents (fp_trace t3) = ?D @ map upload_percent us @ map readiness_percent ts"
    using ts(2) a p2 by simp
  have s_us: "sorted (us @ [])" using assms(3) by (simp add: us_def)
  have s_ts: "sorted (ts @ rest')" using assms(4) ts(1) by simp
  have "set ts \<subseteq> poll_time_after ` set (fd_polls event)"
    using ts(1) by (metis Un_upper1 set_append set_map)
  then have nn: "\<forall>x \<in> set ts. 0 \<le> x" using assms(5) by auto
  have full: "sorted (?D @ map upload_percent us @ map readiness_percent ts @ [100])"
    using sorted_phases [OF assms(2) s_us s_ts nn] .
  have "sorted ([] @ ([] :: real list))" by simp
  then have short: "sorted (?D @ map upload_percent us @ map readiness_percent [] @ [100])"
    using sorted_phases [OF assms(2) s_us, of "[]" "[]"] by simp
  have "sorted ((?D @ map upload_percent us @ map readiness_percent ts) @ [100])"
    using full by simp
  then have sDUA: "sorted (?D @ map upload_percent us @ map readiness_percent ts)"
    by (rule sorted_prefix)
  then have "sorted ((?D @ map upload_percent us) @ map readiness_percent ts)"
    by simp
  then have sDU: "sorted (?D @ map upload_percent us)"
    by (rule sorted_prefix)
  then have sD: "sorted ?D"
    by (rule sorted_prefix)
  have sDU1: "sorted (?D @ map upload_percent us @ [100])"
    using short by simp
  have sDUA1: "sorted (?D @ map upload_percent us @ map readiness_percent ts @ [100])"
    using full .
  show ?thesis
    using u a d p2 p3 sD sDU sDUA sDU1 sDUA1
    by (cases "dl_raises (fd_download event)"; cases ex; cases eo)
       (simp_all add: download_file_from_sp_and_upload_to_duet_def finish_transfer_def
          percents_append del: sorted_wrt.simps)
qed


lemma fst_async_supress: "fst (async_supress r) = fst r"
  by (cases r) (simp add: async_supress_def split: option.splits)

lemma async_supress_returned: "snd r = None \<Longrightarrow> async_supress r = r"
  by (cases r) (simp add: async_supress_def)

lemma upload_attempts_pos: "0 < upload_attempts dev (Suc r) k"
  by (simp split: upload_outcome.splits)

text \<open>How the upload loop ends is decided by the last attempt it makes: it ends by
  \<open>break\<close> exactly when that attempt returns \<open>err = 0\<close>, and by \<open>return\<close> exactly when
  it returns another \<open>err\<close>.\<close>

lemma upload_loop_exit:
  "0 < r \<Longrightarrow>
     (snd (upload_loop dev r k t) = LoopBreak)
       = (up_outcome (dev (k + upload_attempts dev r k - 1)) = UploadReturns 0)"
  "0 < r \<Longrightarrow>
     (snd (upload_loop dev r k t) = LoopReturn)
       = (\<exists>err. err \<noteq> 0
            \<and> up_outcome (dev (k + upload_attempts dev r k - 1)) = UploadReturns err)"
proof (induction r arbitrary: k t)
  case 0
  { case 1 then show ?case by simp }
  { case 2 then show ?case by simp }
next
  case (Suc r)
  {
    case 1
    show ?case
    proof (cases r)
      case 0
      then show ?thesis by (simp split: upload_outcome.splits option.splits)
    next
      case (Suc r')
      then have pos: "0 < r" by simp
      have idx: "Suc k + upload_attempts dev r (Suc k) - 1 = k + upload_attempts dev r (Suc k)"
        by simp
      show ?thesis
        using Suc.IH(1) [OF pos, of "Suc k"] idx
        by (simp split: upload_outcome.splits option.splits)
    qed
  }
  {
    case 2
    show ?case
    proof (cases r)
      case 0
      then show ?thesis by (simp split: upload_outcome.splits option.splits)
    next
      case (Suc r')
      then have pos: "0 < r" by simp
      have idx: "Suc k + upload_attempts dev r (Suc k) - 1 = k + upload_attempts dev r (Suc k)"
        by simp
      show ?thesis
        using Suc.IH(2) [OF pos, of "Suc k"] idx
        by (simp split: upload_outcome.splits option.splits)
    qed
  }
qed

text \<open>Whether \<open>_auto_start_file\<close> returns or raises depends on the polls alone.\<close>

lemma auto_start_outcome: "snd (auto_start_file ps t) = snd (auto_start_file ps t')"
  by (induction ps arbitrary: t t') (simp_all split: poll_outcome.splits)

lemma transfer_success:
  assumes "dl_raises (fd_download event) = None"
      and "up_outcome (fd_uploads event (upload_attempts (fd_uploads event) 3 0 - 1))
             = UploadReturns 0"
      and "fd_auto_start event \<longrightarrow> snd (auto_start_file (fd_polls event) t) = None"
  shows "snd (download_file_from_sp_and_upload_to_duet event t) = None
     \<and> fp_state (fst (download_file_from_sp_and_upload_to_duet event t)) = FP_READY
     \<and> fp_percent (fst (download_file_from_sp_and_upload_to_duet event t)) = 100"
proof -
  obtain t2 ex where u: "upload_loop (fd_uploads event) 3 0 (download_phase event t) = (t2, ex)"
    by (cases "upload_loop (fd_uploads event) 3 0 (download_phase event t)")
  obtain t3 eo where a: "auto_start_file (fd_polls event) t2 = (t3, eo)"
    by (cases "auto_start_file (fd_polls event) t2")
  have "snd (upload_loop (fd_uploads event) 3 0 (download_phase event t)) = LoopBreak"
    using upload_loop_exit(1) [of 3 "fd_uploads event" 0 "download_phase event t"] assms(2)
    by simp
  then have ex: "ex = LoopBreak" using u by simp
  have eo: "fd_auto_start event \<longrightarrow> eo = None"
    using assms(3) a auto_start_outcome [of "fd_polls event" t2 t] by simp
  show ?thesis
    using assms(1) u a ex eo
    by (simp add: download_file_from_sp_and_upload_to_duet_def finish_transfer_def
        set_state_def set_percent_def)
qed

lemma transfer_rejected:
  assumes "dl_raises (fd_download event) = None"
      and "up_outcome (fd_uploads event (upload_attempts (fd_uploads event) 3 0 - 1))
             = UploadReturns err"
      and "err \<noteq> 0"
  shows "snd (download_file_from_sp_and_upload_to_duet event t) = None
     \<and> fp_state (fst (download_file_from_sp_and_upload_to_duet event t)) = FP_ERROR
     \<and> fp_percent (fst (download_file_from_sp_and_upload_to_duet event t)) \<le> 90"
proof -
  obtain t2 ex where u: "upload_loop (fd_uploads event) 3 0 (download_phase event t) = (t2, ex)"
    by (cases "upload_loop (fd_uploads event) 3 0 (download_phase event t)")
  have "snd (upload_loop (fd_uploads event) 3 0 (download_phase event t)) = LoopReturn"
    using upload_loop_exit(2) [of 3 "fd_uploads event" 0 "download_phase event t"]
      assms(2) assms(3)
    by simp
  then have ex: "ex = LoopReturn" using u by simp
  have dp: "fp_percent (download_phase event t) \<le> 50"
    by (rule download_phase_facts)
  have st: "fp_state t2 = FP_ERROR"
    using upload_loop_state [of "fd_uploads event" 3 0 "download_phase event t"] u ex by simp
  have up: "fp_percent t2 \<le> 90"
    using upload_loop_bound [of "download_phase event t" "fd_uploads event" 3 0] u dp by simp
  show ?thesis
    using assms(1) u ex st up
    by (simp add: download_file_from_sp_and_upload_to_duet_def)
qed

text \<open>
  C3, amended. For every execution of the file-transfer pipeline in which the
  downloader's progress values, the progress values of the upload attempts made (in the
  order reported) and the clock readings of the readiness polls are non-decreasing, and
  those clock readings are not negative, the percent sequence is non-decreasing. On every
  success path (the download does not raise, the last upload attempt made returns
  \<open>err = 0\<close>, and the readiness polling, when the print is to start, returns) the
  pipeline ends without exception, with state READY and percent exactly 100. On a
  device-rejection path (the download does not raise and the last upload attempt made
  returns an \<open>err\<close> other than 0) it ends without exception, with state ERROR and a
  percent of at most 90.
\<close>

theorem transfer_percent_and_end_state:
  "(fp_trace t = []
      \<and> sorted (dl_progress (fd_download event))
      \<and> sorted (concat (map (\<lambda>k. up_progress (fd_uploads event k))
                   [0..<upload_attempts (fd_uploads event) 3 0]))
      \<and> sorted (map poll_time_after (fd_polls event))
      \<and> (\<forall>p \<in> set (fd_polls event). 0 \<le> poll_time_after p)
    \<longrightarrow> sorted (percents (fp_trace (fst (async_supress
            (download_file_from_sp_and_upload_to_duet event t))))))
   \<and> (dl_raises (fd_download event) = None
      \<and> up_outcome (fd_uploads event (upload_attempts (fd_uploads event) 3 0 - 1))
          = UploadReturns 0
      \<and> (fd_auto_start event \<longrightarrow> snd (auto_start_file (fd_polls event) t) = None)
    \<longrightarrow> snd (download_file_from_sp_and_upload_to_duet event t) = None
      \<and> async_supress (download_file_from_sp_and_upload_to_duet event t)
          = download_file_from_sp_and_upload_to_duet event t
      \<and> fp_state (fst (download_file_from_sp_and_upload_to_duet event t)) = FP_READY
      \<and> fp_percent (fst (download_file_from_sp_and_upload_to_duet event t)) = 100)
   \<and> (dl_raises (fd_download event) = None
      \<and> up_outcome (fd_uploads event (upload_attempts (fd_uploads event) 3 0 - 1))
          = UploadReturns err
      \<and> err \<noteq> 0
    \<longrightarrow> snd (download_file_from_sp_and_upload_to_duet event t) = None
      \<and> async_supress (download_file_from_sp_and_upload_to_duet event t)
          = download_file_from_sp_and_upload_to_duet event t
      \<and> fp_state (fst (download_file_from_sp_and_upload_to_duet event t)) = FP_ERROR
      \<and> fp_percent (fst (download_file_from_sp_and_upload_to_duet event t)) \<le> 90)"
proof (intro conjI impI)
  assume "fp_trace t = []
      \<and> sorted (dl_progress (fd_download event))
      \<and> sorted (concat (map (\<lambda>k. up_progress (fd_uploads event k))
                   [0..<upload_attempts (fd_uploads event) 3 0]))
      \<and> sorted (map poll_time_after (fd_polls event))
      \<and> (\<forall>p \<in> set (fd_polls event). 0 \<le> poll_time_after p)"
  then have "sorted (percents (fp_trace (fst (download_file_from_sp_and_upload_to_duet event t))))"
    using transfer_percents_sorted [of t event] by blast
  then show "sorted (percents (fp_trace (fst (async_supress
            (download_file_from_sp_and_upload_to_duet event t)))))"
    by (simp only: fst_async_supress)
next
  assume h: "dl_raises (fd_download event) = None
      \<and> up_outcome (fd_uploads event (upload_attempts (fd_uploads event) 3 0 - 1))
          = UploadReturns 0
      \<and> (fd_auto_start event \<longrightarrow> snd (auto_start_file (fd_polls event) t) = None)"
  have s: "snd (download_file_from_sp_and_upload_to_duet event t) = None
     \<and> fp_state (fst (download_file_from_sp_and_upload_to_duet event t)) = FP_READY
     \<and> fp_percent (fst (download_file_from_sp_and_upload_to_duet event t)) = 100"
    using h transfer_success [of event t] by blast
  show "snd (download_file_from_sp_and_upload_to_duet event t) = None" using s by simp
  show "async_supress (download_file_from_sp_and_upload_to_duet event t)
          = download_file_from_sp_and_upload_to_duet event t"
    using s by (simp add: async_supress_returned)
  show "fp_state (fst (download_file_from_sp_and_upload_to_duet event t)) = FP_READY"
    using s by simp
  show "fp_percent (fst (download_file_from_sp_and_upload_to_duet event t)) = 100"
    using s by simp
next
  assume h: "dl_raises (fd_download event) = None
      \<and> up_outcome (fd_uploads event (upload_attempts (fd_uploads event) 3 0 - 1))
          = UploadReturns err
      \<and> err \<noteq> 0"
  have s: "snd (download_file_from_sp_and_upload_to_duet event t) = None
     \<and> fp_state (fst (download_file_from_sp_and_upload_to_duet event t)) = FP_ERROR
     \<and> fp_percent (fst (download_file_from_sp_and_upload_to_duet event t)) \<le> 90"
    using h transfer_rejected [of event err t] by blast
  show "snd (download_file_from_sp_and_upload_to_duet event t) = None" using s by simp
  show "async_supress (download_file_from_sp_and_upload_to_duet event t)
          = download_file_from_sp_and_upload_to_duet event t"
    using s by (simp add: async_supress_returned)
  show "fp_state (fst (download_file_from_sp_and_upload_to_duet event t)) = FP_ERROR"
    using s by simp
  show "fp_percent (fst (download_file_from_sp_and_upload_to_duet event t)) \<le> 90"
    using s by simp
qed

lemma round_half_even_55: "round_half_even 55 = 55" by (simp add: round_half_even_def)
lemma round_half_even_70: "round_half_even 70 = 70" by (simp add: round_half_even_def)

theorem transfer_percent_and_end_state_witness:
  "fp_trace no_transfer = []
   \<and> sorted (dl_progress (fd_download upload_then_start))
   \<and> sorted (concat (map (\<lambda>k. up_progress (fd_uploads upload_then_start k))
                [0..<upload_attempts (fd_uploads upload_then_start) 3 0]))
   \<and> sorted (map poll_time_after (fd_polls upload_then_start))
   \<and> list_all (\<lambda>p. 0 \<le> poll_time_after p) (fd_polls upload_then_start)
   \<and> dl_raises (fd_download upload_then_start) = None
   \<and> up_outcome (fd_uploads upload_then_start
         (upload_attempts (fd_uploads upload_then_start) 3 0 - 1)) = UploadReturns 0
   \<and> fd_auto_start upload_then_start
   \<and> snd (auto_start_file (fd_polls upload_then_start) no_transfer) = None
   \<and> download_file_from_sp_and_upload_to_duet upload_then_start no_transfer
       = (\<lparr>fp_state = FP_READY, fp_percent = 100,
           fp_trace = [SetState FP_DOWNLOADING, SetPercent 0, SetPercent 0, SetPercent 25,
                       SetPercent 50, UploadStream, SetPercent 55, SetPercent 90,
                       SetPercent (1801 / 20), StartPrint, SetPercent 100,
                       SetState FP_READY]\<rparr>, None)
   \<and> upload_attempts retry_then_ok 3 0 = 2
   \<and> up_outcome (retry_then_ok (upload_attempts retry_then_ok 3 0 - 1)) = UploadReturns 0
   \<and> fp_state (fst (download_file_from_sp_and_upload_to_duet (demand retry_then_ok)
                       no_transfer)) = FP_READY
   \<and> dl_raises (fd_download upload_rejected) = None
   \<and> up_outcome (fd_uploads upload_rejected
         (upload_attempts (fd_uploads upload_rejected) 3 0 - 1)) = UploadReturns 1
   \<and> download_file_from_sp_and_upload_to_duet upload_rejected no_transfer
       = (\<lparr>fp_state = FP_ERROR, fp_percent = 70,
           fp_trace = [SetState FP_DOWNLOADING, SetPercent 0, SetPercent 50, UploadStream,
                       SetPercent 70, SetState FP_ERROR]\<rparr>, None)"
  using transfer_percent_and_end_state [where t = no_transfer and event = upload_then_start]
    transfer_percent_and_end_state [where t = no_transfer and event = "demand retry_then_ok"]
    transfer_percent_and_end_state [where t = no_transfer and event = upload_rejected
      and err = 1]
  by (simp add: download_file_from_sp_and_upload_to_duet_def download_phase_def
      upload_then_start_def upload_rejected_def demand_def retry_then_ok_def
      no_transfer_def set_state_def set_percent_def
      log_event_def clamp_progress_def finish_transfer_def eval_nat_numeral
      upload_file_progress_def upload_percent_def readiness_percent_def
      round_half_even_50 round_half_even_55 round_half_even_70 round_half_even_100)

section \<open>Temperature mapping: missing keys\<close>

lemma update_tools_length:
  "length (fst (update_tool_temperatures om heaters done ts)) = length done + length ts"
  by (induction ts arbitrary: "done") (simp_all split: sum.splits del: getpath.simps)

lemma update_tools_length_result:
  "update_tool_temperatures om heaters done ts = (tools, eo) \<Longrightarrow>
   length tools = length done + length ts"
  using update_tools_length [of om heaters "done" ts] by simp

lemma update_temperatures_tools_length:
  "length (tool_temperatures (fst (update_temperatures om p))) = length (tool_temperatures p)"
  by (auto simp add: update_temperatures_def simp del: getpath.simps
      split: sum.splits prod.splits option.splits dest: update_tools_length_result)

text \<open>
  When \<open>_update_temperatures\<close> raises \<open>KeyError\<close> (a key is missing from the object
  model) and the printer has at least one tool, the handler catches it: no exception
  leaves the temperature step, and the bed's and the first tool's \<open>actual\<close> are 0.0.
\<close>

theorem on_objectmodel_temperatures_key_error:
  "snd (update_temperatures om p) = Some KeyError \<and> tool_temperatures p \<noteq> [] \<longrightarrow>
     snd (on_objectmodel_temperatures om p) = None
   \<and> actual (bed_temperature (fst (on_objectmodel_temperatures om p))) = JFloat 0
   \<and> actual (hd (tool_temperatures (fst (on_objectmodel_temperatures om p)))) = JFloat 0"
proof -
  obtain p' eo where u: "update_temperatures om p = (p', eo)"
    by (cases "update_temperatures om p")
  have "length (tool_temperatures p') = length (tool_temperatures p)"
    using update_temperatures_tools_length [of om p] u by simp
  then show ?thesis
    using u
    by (cases "tool_temperatures p'")
       (auto simp add: on_objectmodel_temperatures_def)
qed

theorem on_objectmodel_temperatures_key_error_witness:
  "update_temperatures (JObj []) one_tool = (one_tool, Some KeyError)
   \<and> on_objectmodel_temperatures (JObj []) one_tool
       = (\<lparr>bed_temperature = \<lparr>actual = JFloat 0, target = JNull\<rparr>,
           tool_temperatures = [\<lparr>actual = JFloat 0, target = JNull\<rparr>],
           ambient_temperature = JNull\<rparr>, None)"
  using on_objectmodel_temperatures_key_error [of "JObj []" one_tool]
  by (simp add: on_objectmodel_temperatures_def update_temperatures_def one_tool_def)

section \<open>File transfer: the retry policy\<close>

lemma foldl_upload_trace:
  "fp_trace (foldl (\<lambda>t p. upload_file_progress p t) t ps)
     = fp_trace t @ map (\<lambda>p. SetPercent (upload_percent p)) ps"
  by (induction ps arbitrary: t) (simp_all add: upload_file_progress_def)

lemma upload_loop_trace_extends:
  "\<exists>rest. fp_trace (fst (upload_loop dev r k t)) = fp_trace t @ rest"
proof (induction r arbitrary: k t)
  case 0
  then show ?case by simp
next
  case (Suc r)
  let ?t1 = "foldl (\<lambda>t p. upload_file_progress p t) (log_event UploadStream t)
               (up_progress (dev k))"
  obtain r1 where r1: "fp_trace ?t1 = fp_trace t @ r1"
    by (simp add: foldl_upload_trace)
  obtain r2 where r2: "fp_trace (fst (upload_loop dev r (Suc k) (log_event Reconnect ?t1)))
     = fp_trace (log_event Reconnect ?t1) @ r2"
    using Suc.IH [of "Suc k" "log_event Reconnect ?t1"] by auto
  show ?case
    using r1 r2
    by (simp split: upload_outcome.splits option.splits)
qed

text \<open>
  The retry policy of the upload loop. The loop calls \<open>rr_upload_stream\<close> at most 3
  times. After a failure with status 401 or 500 the next thing the pipeline does is the
  reconnect. A \<open>ClientResponseError\<close> with any other status leaves the loop at once, as
  that exception.
\<close>

theorem upload_loop_retry_policy:
  "length (filter (\<lambda>ev. ev = UploadStream) (fp_trace (fst (upload_loop dev 3 0 t))))
     \<le> length (filter (\<lambda>ev. ev = UploadStream) (fp_trace t)) + 3
   \<and> ((st = 401 \<or> st = 500) \<and> up_outcome (dev k) = UploadRaises (ClientResponseError st)
        \<longrightarrow> (\<exists>rest. fp_trace (fst (upload_loop dev (Suc r) k t))
               = fp_trace t @ [UploadStream]
                 @ map (\<lambda>p. SetPercent (upload_percent p)) (up_progress (dev k))
                 @ [Reconnect] @ rest))
   \<and> (st \<noteq> 401 \<and> st \<noteq> 500 \<and> up_outcome (dev k) = UploadRaises (ClientResponseError st)
        \<longrightarrow> upload_loop dev (Suc r) k t
              = (foldl (\<lambda>t p. upload_file_progress p t) (log_event UploadStream t)
                   (up_progress (dev k)), LoopRaise (ClientResponseError st)))"
proof -
  have a: "length (filter (\<lambda>ev. ev = UploadStream) (fp_trace (fst (upload_loop dev 3 0 t))))
     \<le> length (filter (\<lambda>ev. ev = UploadStream) (fp_trace t)) + 3"
    using upload_loop_attempts [of dev 3 0 t] upload_attempts_le [of dev 3 0] by simp
  let ?t1 = "foldl (\<lambda>t p. upload_file_progress p t) (log_event UploadStream t)
               (up_progress (dev k))"
  obtain r2 where r2: "fp_trace (fst (upload_loop dev r (Suc k) (log_event Reconnect ?t1)))
     = fp_trace (log_event Reconnect ?t1) @ r2"
    using upload_loop_trace_extends [of dev r "Suc k" "log_event Reconnect ?t1"] by auto
  have b: "(st = 401 \<or> st = 500) \<and> up_outcome (dev k) = UploadRaises (ClientResponseError st)
        \<longrightarrow> (\<exists>rest. fp_trace (fst (upload_loop dev (Suc r) k t))
               = fp_trace t @ [UploadStream]
                 @ map (\<lambda>p. SetPercent (upload_percent p)) (up_progress (dev k))
                 @ [Reconnect] @ rest)"
    using r2 by (auto simp add: foldl_upload_trace split: option.splits)
  have c: "st \<noteq> 401 \<and> st \<noteq> 500 \<and> up_outcome (dev k) = UploadRaises (ClientResponseError st)
        \<longrightarrow> upload_loop dev (Suc r) k t = (?t1, LoopRaise (ClientResponseError st))"
    by simp
  from a b c show ?thesis by blast
qed

theorem upload_loop_retry_policy_witness:
  "up_outcome (retry_then_404 0) = UploadRaises (ClientResponseError 401)
   \<and> up_outcome (retry_then_404 1) = UploadRaises (ClientResponseError 404)
   \<and> upload_loop retry_then_404 3 0 no_transfer
       = (\<lparr>fp_state = FP_READY, fp_percent = 50,
           fp_trace = [UploadStream, SetPercent 90, Reconnect, UploadStream, SetPercent 50]\<rparr>,
          LoopRaise (ClientResponseError 404))"
  using upload_loop_retry_policy [of retry_then_404 no_transfer 401 0 2]
    upload_loop_retry_policy [of retry_then_404 no_transfer 404 1 1]
  by (simp add: retry_then_404_def no_transfer_def set_percent_def log_event_def
      eval_nat_numeral upload_file_progress_def upload_percent_def round_half_even_50 round_half_even_100)

end
